theory Spec2Isabelle
  imports Main "HOL-Library.Multiset"
begin

section \<open>Python values used by server.py\<close>

text \<open>
  Strings are \<open>string\<close>; a \<open>char\<close> stands for one code point in the range
  U+0000..U+00FF. Integers are \<open>int\<close> (Python integers are unbounded).
\<close>

subsection \<open>Strings\<close>

text \<open>\<^verbatim>\<open>str.isspace\<close> on one code point below U+0100: TAB..CR, FS..US, space, NEL, NBSP.\<close>

definition py_isspace :: "char \<Rightarrow> bool" where
  "py_isspace c \<longleftrightarrow>
     (let n = (of_char c :: nat)
      in (9 \<le> n \<and> n \<le> 13) \<or> (28 \<le> n \<and> n \<le> 32) \<or> n = 133 \<or> n = 160)"

text \<open>\<^verbatim>\<open>s.strip()\<close>: drop leading and trailing whitespace.\<close>

definition py_strip :: "string \<Rightarrow> string" where
  "py_strip s = rev (dropWhile py_isspace (rev (dropWhile py_isspace s)))"

definition upper_letters :: string where
  "upper_letters = ''ABCDEFGHIJKLMNOPQRSTUVWXYZ'' @
     [CHR 0xC0, CHR 0xC1, CHR 0xC2, CHR 0xC3, CHR 0xC4, CHR 0xC5, CHR 0xC6, CHR 0xC7,
      CHR 0xC8, CHR 0xC9, CHR 0xCA, CHR 0xCB, CHR 0xCC, CHR 0xCD, CHR 0xCE, CHR 0xCF,
      CHR 0xD0, CHR 0xD1, CHR 0xD2, CHR 0xD3, CHR 0xD4, CHR 0xD5, CHR 0xD6,
      CHR 0xD8, CHR 0xD9, CHR 0xDA, CHR 0xDB, CHR 0xDC, CHR 0xDD, CHR 0xDE]"

definition lower_letters :: string where
  "lower_letters = ''abcdefghijklmnopqrstuvwxyz'' @
     [CHR 0xE0, CHR 0xE1, CHR 0xE2, CHR 0xE3, CHR 0xE4, CHR 0xE5, CHR 0xE6, CHR 0xE7,
      CHR 0xE8, CHR 0xE9, CHR 0xEA, CHR 0xEB, CHR 0xEC, CHR 0xED, CHR 0xEE, CHR 0xEF,
      CHR 0xF0, CHR 0xF1, CHR 0xF2, CHR 0xF3, CHR 0xF4, CHR 0xF5, CHR 0xF6,
      CHR 0xF8, CHR 0xF9, CHR 0xFA, CHR 0xFB, CHR 0xFC, CHR 0xFD, CHR 0xFE]"

text \<open>\<^verbatim>\<open>s.lower()\<close>: the letters A..Z and U+00C0..U+00DE (without U+00D7) move down.\<close>

definition py_lower :: "string \<Rightarrow> string" where
  "py_lower s =
     map (\<lambda>c. case map_of (zip upper_letters lower_letters) c of Some l \<Rightarrow> l | None \<Rightarrow> c) s"

text \<open>
  \<^verbatim>\<open>s.upper()\<close>, exact on every code point whose capital is again a single code point
  below U+0100. The source applies it to the text of an SQLite error, which is ASCII.
\<close>

definition py_upper :: "string \<Rightarrow> string" where
  "py_upper s =
     map (\<lambda>c. case map_of (zip lower_letters upper_letters) c of Some u \<Rightarrow> u | None \<Rightarrow> c) s"

text \<open>\<^verbatim>\<open>sep.join(xs)\<close>\<close>

fun py_join :: "string \<Rightarrow> string list \<Rightarrow> string" where
  "py_join sep [] = []"
| "py_join sep [x] = x"
| "py_join sep (x # y # ys) = x @ sep @ py_join sep (y # ys)"

text \<open>\<^verbatim>\<open>sub in s\<close> for strings: \<open>sub\<close> occurs as a contiguous piece of \<open>s\<close>.\<close>

fun py_in :: "string \<Rightarrow> string \<Rightarrow> bool" where
  "py_in sub [] = (sub = [])"
| "py_in sub (c # cs) = (take (length sub) (c # cs) = sub \<or> py_in sub cs)"

text \<open>
  Cutting a string at every character that satisfies \<open>P\<close>. \<^verbatim>\<open>s.split(sep)\<close> cuts at
  a one-character separator; \<^verbatim>\<open>s.split()\<close> cuts at whitespace and drops the empty
  pieces.
\<close>

fun split_when :: "(char \<Rightarrow> bool) \<Rightarrow> string \<Rightarrow> string list" where
  "split_when P [] = [[]]"
| "split_when P (c # cs) =
     (if P c then [] # split_when P cs
      else (case split_when P cs of w # ws \<Rightarrow> (c # w) # ws | [] \<Rightarrow> [[c]]))"

definition split_on :: "char \<Rightarrow> string \<Rightarrow> string list" where
  "split_on sep s = split_when (\<lambda>c. c = sep) s"

definition py_split :: "string \<Rightarrow> string list" where
  "py_split s = filter (\<lambda>w. w \<noteq> []) (split_when py_isspace s)"

text \<open>\<^verbatim>\<open>s.strip(chars)\<close>\<close>

definition strip_chars :: "string \<Rightarrow> string \<Rightarrow> string" where
  "strip_chars chars s =
     rev (dropWhile (\<lambda>c. c \<in> set chars) (rev (dropWhile (\<lambda>c. c \<in> set chars) s)))"

text \<open>
  \<^verbatim>\<open>s.rsplit(sep, 1)\<close> for a one-character separator: the pieces before and after the
  last separator, or \<open>None\<close> when the separator does not occur (the list then has one
  element, and index 1 raises IndexError).
\<close>

definition rsplit1 :: "char \<Rightarrow> string \<Rightarrow> (string \<times> string) option" where
  "rsplit1 sep s =
     (if sep \<in> set s
      then Some (rev (tl (dropWhile (\<lambda>c. c \<noteq> sep) (rev s))),
                 rev (takeWhile (\<lambda>c. c \<noteq> sep) (rev s)))
      else None)"

text \<open>\<^verbatim>\<open>str(n)\<close> for an integer.\<close>

definition digit_char :: "nat \<Rightarrow> char" where
  "digit_char d = ''0123456789'' ! d"

fun digits :: "nat \<Rightarrow> string" where
  "digits n = (if n < 10 then [digit_char n] else digits (n div 10) @ [digit_char (n mod 10)])"

declare digits.simps [simp del]

definition str_int :: "int \<Rightarrow> string" where
  "str_int i = (if i < 0 then CHR ''-'' # digits (nat (- i)) else digits (nat i))"

text \<open>\<^verbatim>\<open>os.path.basename(p)\<close> (POSIX): what follows the last slash.\<close>

definition basename :: "string \<Rightarrow> string" where
  "basename p = rev (takeWhile (\<lambda>c. c \<noteq> CHR ''/'') (rev p))"

subsection \<open>JSON values, exceptions, responses\<close>

text \<open>
  JSON as \<^verbatim>\<open>json.loads\<close> and \<^verbatim>\<open>jsonify\<close> see it, without floating-point numbers. An
  object is the list of its members in source order; a later member with the same key
  overrides an earlier one, as in a Python dict.
\<close>

datatype json =
    JNull
  | JBool bool
  | JInt int
  | JStr string
  | JArr "json list"
  | JObj "(string \<times> json) list"

definition dict_get :: "(string \<times> json) list \<Rightarrow> string \<Rightarrow> json option" where
  "dict_get kvs k = map_of (rev kvs) k"

text \<open>Python truthiness of a decoded JSON value.\<close>

fun truthy :: "json \<Rightarrow> bool" where
  "truthy JNull = False"
| "truthy (JBool b) = b"
| "truthy (JInt i) = (i \<noteq> 0)"
| "truthy (JStr s) = (s \<noteq> [])"
| "truthy (JArr xs) = (xs \<noteq> [])"
| "truthy (JObj kvs) = (kvs \<noteq> [])"

datatype exn =
    IntegrityError string
  | OperationalError string
  | ProgrammingError string
  | OverflowError string
  | AttributeError string
  | IndexError string
  | OSError string

fun str_exn :: "exn \<Rightarrow> string" where
  "str_exn (IntegrityError m) = m"
| "str_exn (OperationalError m) = m"
| "str_exn (ProgrammingError m) = m"
| "str_exn (OverflowError m) = m"
| "str_exn (AttributeError m) = m"
| "str_exn (IndexError m) = m"
| "str_exn (OSError m) = m"

text \<open>
  A response is a status code and a payload: a JSON document, a text, or a file
  (the resolved location of the file that is sent, with its content).
\<close>

datatype payload =
    Json json
  | Text string
  | FileBody "string list" string

record response =
  status :: nat
  body :: payload

definition jsonify :: "nat \<Rightarrow> (string \<times> json) list \<Rightarrow> response" where
  "jsonify code members = \<lparr>status = code, body = Json (JObj members)\<rparr>"

section \<open>The database\<close>

text \<open>
  The three tables of \<^verbatim>\<open>init_db\<close>. A table that has not been created is \<open>None\<close>; a
  statement on it raises \<^verbatim>\<open>sqlite3.OperationalError\<close>. Rows are kept in insertion order.
  The \<open>_seq\<close> fields are the table's entry in \<^verbatim>\<open>sqlite_sequence\<close> (AUTOINCREMENT): the
  largest row id ever given out. Row ids are unbounded integers; SQLite's 64-bit limit on
  row ids is outside the model.
\<close>

record user_row =
  u_id :: int
  u_username :: string
  u_password :: string

record admin_row =
  a_id :: int
  a_adminpass :: string

record employee_row =
  e_id :: int
  e_name :: string
  e_email :: string
  e_department :: string
  e_role :: string
  e_roll_number :: string
  e_photo_path :: "string option"
  e_created_at :: string

record db =
  users :: "user_row list option"
  users_seq :: int
  admin :: "admin_row list option"
  admin_seq :: int
  employees :: "employee_row list option"
  employees_seq :: int

text \<open>The database file before anything was created in it.\<close>

definition empty_db :: db where
  "empty_db = \<lparr>users = None, users_seq = 0, admin = None, admin_seq = 0,
               employees = None, employees_seq = 0\<rparr>"

text \<open>AUTOINCREMENT: one more than the largest id ever used in the table.\<close>

definition next_rowid :: "int \<Rightarrow> int list \<Rightarrow> int" where
  "next_rowid seq ids = fold max ids seq + 1"

text \<open>\<^verbatim>\<open>INSERT INTO users (username, password) VALUES (?,?)\<close>; \<open>username\<close> is UNIQUE.\<close>

definition insert_user :: "db \<Rightarrow> string \<Rightarrow> string \<Rightarrow> exn + db" where
  "insert_user d uname pw =
     (case users d of
        None \<Rightarrow> Inl (OperationalError ''no such table: users'')
      | Some rows \<Rightarrow>
          if uname \<in> set (map u_username rows)
          then Inl (IntegrityError ''UNIQUE constraint failed: users.username'')
          else (let i = next_rowid (users_seq d) (map u_id rows)
                in Inr (d\<lparr>users := Some (rows @ [\<lparr>u_id = i, u_username = uname, u_password = pw\<rparr>]),
                          users_seq := i\<rparr>)))"

text \<open>\<^verbatim>\<open>INSERT INTO admin (adminpass) VALUES (?)\<close>\<close>

definition insert_admin :: "db \<Rightarrow> string \<Rightarrow> exn + db" where
  "insert_admin d pass =
     (case admin d of
        None \<Rightarrow> Inl (OperationalError ''no such table: admin'')
      | Some rows \<Rightarrow>
          (let i = next_rowid (admin_seq d) (map a_id rows)
           in Inr (d\<lparr>admin := Some (rows @ [\<lparr>a_id = i, a_adminpass = pass\<rparr>]),
                     admin_seq := i\<rparr>)))"

text \<open>
  \<^verbatim>\<open>INSERT INTO employees (name, email, department, role, roll_number, photo_path)\<close>;
  \<open>roll_number\<close> is UNIQUE, \<open>created_at\<close> defaults to the current timestamp. The result
  carries \<^verbatim>\<open>cur.lastrowid\<close>.
\<close>

definition insert_employee ::
  "db \<Rightarrow> string \<Rightarrow> string \<Rightarrow> string \<Rightarrow> string \<Rightarrow> string \<Rightarrow> string \<Rightarrow> string option
     \<Rightarrow> exn + (db \<times> int)" where
  "insert_employee d stamp nm em dep rl roll photo =
     (case employees d of
        None \<Rightarrow> Inl (OperationalError ''no such table: employees'')
      | Some rows \<Rightarrow>
          if roll \<in> set (map e_roll_number rows)
          then Inl (IntegrityError ''UNIQUE constraint failed: employees.roll_number'')
          else (let i = next_rowid (employees_seq d) (map e_id rows)
                in Inr (d\<lparr>employees := Some (rows @
                            [\<lparr>e_id = i, e_name = nm, e_email = em, e_department = dep,
                              e_role = rl, e_roll_number = roll, e_photo_path = photo,
                              e_created_at = stamp\<rparr>]),
                          employees_seq := i\<rparr>, i)))"

text \<open>
  \<^verbatim>\<open>init_db\<close>: three \<^verbatim>\<open>CREATE TABLE IF NOT EXISTS\<close>, then the seed rows where a table
  is empty. The result is the database and the exception that left the \<^verbatim>\<open>with\<close>
  block, if any; on an exception the inserts are rolled back and the created tables stay.
\<close>

definition init_db :: "db \<Rightarrow> db \<times> exn option" where
  "init_db d0 =
     (let d1 = (case users d0 of None \<Rightarrow> d0\<lparr>users := Some []\<rparr> | Some _ \<Rightarrow> d0);
          d2 = (case admin d1 of None \<Rightarrow> d1\<lparr>admin := Some []\<rparr> | Some _ \<Rightarrow> d1);
          d3 = (case employees d2 of None \<Rightarrow> d2\<lparr>employees := Some []\<rparr> | Some _ \<Rightarrow> d2);
          user_count = (case users d3 of Some rows \<Rightarrow> length rows | None \<Rightarrow> 0)
      in case (if user_count = 0 then insert_user d3 ''hidan'' ''killer'' else Inr d3) of
           Inl e \<Rightarrow> (d3, Some e)
         | Inr d4 \<Rightarrow>
             (let admin_count = (case admin d4 of Some rows \<Rightarrow> length rows | None \<Rightarrow> 0)
              in case (if admin_count = 0 then insert_admin d4 ''ceo@2025'' else Inr d4) of
                   Inl e \<Rightarrow> (d3, Some e)
                 | Inr d5 \<Rightarrow> (d5, None)))"

section \<open>The file system\<close>

text \<open>
  Files and directories are stored under their resolved absolute location, a list of
  names below the root. \<open>denied\<close> marks the locations that the operating system refuses
  to create, overwrite or unlink; \<open>cwd\<close> is the working directory of the process.
  Symbolic links are outside the model.
\<close>

datatype node = File string | Dir

record filesys =
  nodes :: "string list \<Rightarrow> node option"
  denied :: "string list \<Rightarrow> bool"
  cwd :: "string list"

definition is_dir :: "filesys \<Rightarrow> string list \<Rightarrow> bool" where
  "is_dir f loc \<longleftrightarrow> loc = [] \<or> nodes f loc = Some Dir"

text \<open>
  The kernel's resolution of a path, one component after the other: every component is
  looked up in a directory; the empty component and \<open>.\<close> stay, \<open>..\<close> moves up.
\<close>

fun walk :: "filesys \<Rightarrow> string list \<Rightarrow> string list \<Rightarrow> string list option" where
  "walk f cur [] = Some cur"
| "walk f cur (c # cs) =
     (if \<not> is_dir f cur then None
      else if c = [] \<or> c = ''.'' then walk f cur cs
      else if c = ''..'' then walk f (butlast cur) cs
      else walk f (cur @ [c]) cs)"

definition os_resolve :: "filesys \<Rightarrow> string \<Rightarrow> string list option" where
  "os_resolve f p =
     (if p = [] then None
      else walk f (if hd p = CHR ''/'' then [] else cwd f) (split_on CHR ''/'' p))"

text \<open>\<^verbatim>\<open>os.path.exists\<close>, \<^verbatim>\<open>os.path.isfile\<close>\<close>

definition os_path_exists :: "filesys \<Rightarrow> string \<Rightarrow> bool" where
  "os_path_exists f p =
     (case os_resolve f p of None \<Rightarrow> False | Some loc \<Rightarrow> loc = [] \<or> nodes f loc \<noteq> None)"

definition os_path_isfile :: "filesys \<Rightarrow> string \<Rightarrow> bool" where
  "os_path_isfile f p =
     (case os_resolve f p of
        None \<Rightarrow> False
      | Some loc \<Rightarrow> \<not> is_dir f loc \<and> nodes f loc \<noteq> None)"

text \<open>\<^verbatim>\<open>os.remove(p)\<close>\<close>

definition os_remove :: "filesys \<Rightarrow> string \<Rightarrow> exn + filesys" where
  "os_remove f p =
     (case os_resolve f p of
        None \<Rightarrow> Inl (OSError ''No such file or directory'')
      | Some loc \<Rightarrow>
          if is_dir f loc then Inl (OSError ''Is a directory'')
          else if nodes f loc = None then Inl (OSError ''No such file or directory'')
          else if denied f loc then Inl (OSError ''Permission denied'')
          else Inr (f\<lparr>nodes := (nodes f)(loc := None)\<rparr>))"

text \<open>\<^verbatim>\<open>FileStorage.save(p)\<close>: open \<open>p\<close> for writing and copy the upload into it.\<close>

definition file_save :: "filesys \<Rightarrow> string \<Rightarrow> string \<Rightarrow> exn + filesys" where
  "file_save f p data =
     (case os_resolve f p of
        None \<Rightarrow> Inl (OSError ''No such file or directory'')
      | Some loc \<Rightarrow>
          if is_dir f loc then Inl (OSError ''Is a directory'')
          else if denied f loc then Inl (OSError ''Permission denied'')
          else Inr (f\<lparr>nodes := (nodes f)(loc \<mapsto> File data)\<rparr>))"

text \<open>
  \<^verbatim>\<open>send_file(p)\<close>: the file at the resolved location is sent; a directory or a missing
  file raises.
\<close>

definition send_file :: "filesys \<Rightarrow> string \<Rightarrow> exn + response" where
  "send_file f p =
     (case os_resolve f p of
        None \<Rightarrow> Inl (OSError ''No such file or directory'')
      | Some loc \<Rightarrow>
          if is_dir f loc then Inl (OSError ''Is a directory'')
          else (case nodes f loc of
                  Some (File data) \<Rightarrow> Inr \<lparr>status = 200, body = FileBody loc data\<rparr>
                | _ \<Rightarrow> Inl (OSError ''No such file or directory'')))"

subsection \<open>Paths\<close>

text \<open>
  A \<^verbatim>\<open>pathlib.Path\<close> that is absolute is the list of its parts. \<open>path_div base rel\<close> is
  \<^verbatim>\<open>base / rel\<close>: an absolute \<open>rel\<close> replaces \<open>base\<close>; empty parts and \<open>.\<close> are dropped,
  \<open>..\<close> is kept. \<open>str_path\<close> is \<^verbatim>\<open>str(path)\<close>.
\<close>

definition path_parts :: "string \<Rightarrow> string list" where
  "path_parts p = filter (\<lambda>c. c \<noteq> [] \<and> c \<noteq> ''.'') (split_on CHR ''/'' p)"

definition path_div :: "string list \<Rightarrow> string \<Rightarrow> string list" where
  "path_div base rel =
     (if rel \<noteq> [] \<and> hd rel = CHR ''/'' then path_parts rel else base @ path_parts rel)"

definition str_path :: "string list \<Rightarrow> string" where
  "str_path parts = CHR ''/'' # py_join ''/'' parts"

text \<open>\<^verbatim>\<open>posixpath.normpath\<close>\<close>

definition norm_step :: "nat \<Rightarrow> string list \<Rightarrow> string \<Rightarrow> string list" where
  "norm_step initial_slashes new_comps part =
     (if part = [] \<or> part = ''.'' then new_comps
      else if part \<noteq> ''..'' \<or> (initial_slashes = 0 \<and> new_comps = [])
              \<or> (new_comps \<noteq> [] \<and> last new_comps = ''..'')
           then new_comps @ [part]
      else if new_comps \<noteq> [] then butlast new_comps
      else new_comps)"

definition normpath :: "string \<Rightarrow> string" where
  "normpath path =
     (if path = [] then ''.''
      else (let initial_slashes =
                  (if hd path = CHR ''/''
                   then (if take 2 path = ''//'' \<and> take 3 path \<noteq> ''///'' then 2 else 1)
                   else 0);
                comps = foldl (norm_step initial_slashes) [] (split_on CHR ''/'' path);
                p = replicate initial_slashes CHR ''/'' @ py_join ''/'' comps
            in if p = [] then ''.'' else p))"

text \<open>
  \<^verbatim>\<open>werkzeug.security.safe_join(directory, filename)\<close> on POSIX, where there is no
  alternative separator; \<open>None\<close> when the name would leave the directory.
\<close>

definition safe_join :: "string \<Rightarrow> string \<Rightarrow> string option" where
  "safe_join directory filename =
     (let dir = (if directory = [] then ''.'' else directory);
          fname = (if filename \<noteq> [] then normpath filename else filename)
      in if (fname \<noteq> [] \<and> hd fname = CHR ''/'') \<or> fname = ''..'' \<or> take 3 fname = ''../''
         then None
         else Some (if fname \<noteq> [] \<and> hd fname = CHR ''/'' then fname
                    else if dir = [] \<or> last dir = CHR ''/'' then dir @ fname
                    else dir @ ''/'' @ fname))"

section \<open>Configuration and requests\<close>

text \<open>
  What the process reads from its surroundings: \<open>app_dir\<close> is \<^verbatim>\<open>APP_DIR\<close> (the resolved
  directory of server.py, as its parts), \<open>time_now\<close> is \<^verbatim>\<open>int(time.time())\<close> and
  \<open>current_timestamp\<close> is SQLite's \<^verbatim>\<open>CURRENT_TIMESTAMP\<close> at the moment of the request.
  \<open>ascii_fold\<close> is the Unicode table behind \<^verbatim>\<open>secure_filename\<close>: the ASCII characters
  that are left of one code point above U+007F after NFKD normalisation.
\<close>

record env =
  app_dir :: "string list"
  ascii_fold :: "char \<Rightarrow> string"
  time_now :: int
  current_timestamp :: string

text \<open>
  \<^verbatim>\<open>werkzeug.utils.secure_filename\<close> on POSIX: normalise to ASCII, turn slashes into
  spaces, join the whitespace-separated pieces with underscores, keep letters, digits,
  underscore, dot and hyphen, and strip dots and underscores from both ends.
\<close>

definition filename_chars :: string where
  "filename_chars =
     ''ABCDEFGHIJKLMNOPQRSTUVWXYZabcdefghijklmnopqrstuvwxyz0123456789_.-''"

definition secure_filename :: "env \<Rightarrow> string \<Rightarrow> string" where
  "secure_filename e fname =
     (let ascii = concat (map (\<lambda>c. if (of_char c :: nat) < 128 then [c] else ascii_fold e c) fname);
          spaced = map (\<lambda>c. if c = CHR ''/'' then CHR '' '' else c) ascii;
          joined = py_join ''_'' (py_split spaced)
      in strip_chars ''._'' (filter (\<lambda>c. c \<in> set filename_chars) joined))"

definition UPLOAD_DIR :: "env \<Rightarrow> string list" where
  "UPLOAD_DIR e = app_dir e @ [''uploads'']"

definition ALLOWED_EXTENSIONS :: "string list" where
  "ALLOWED_EXTENSIONS = [''png'', ''jpg'', ''jpeg'', ''webp'', ''gif'']"

definition allowed_file :: "string \<Rightarrow> bool" where
  "allowed_file fname \<longleftrightarrow>
     CHR ''.'' \<in> set fname \<and>
     (case rsplit1 CHR ''.'' fname of
        Some (_, ext) \<Rightarrow> py_lower ext \<in> set ALLOWED_EXTENSIONS
      | None \<Rightarrow> False)"

text \<open>
  The server's state is the database and the disk. A create request is the parsed
  multipart form: the text fields and the file parts (werkzeug's \<^verbatim>\<open>FileStorage\<close>), each a
  list in the order received; \<^verbatim>\<open>.get\<close> returns the first entry of a name. A request
  above \<^verbatim>\<open>MAX_CONTENT_LENGTH\<close> has no parsed form and is outside the model.
\<close>

record state =
  db :: db
  fs :: filesys

record upload =
  filename :: string
  content :: string

record create_request =
  form :: "(string \<times> string) list"
  files :: "(string \<times> upload) list"

text \<open>\<^verbatim>\<open>request.form.get(k) or ""\<close>\<close>

definition form_get_or_empty :: "(string \<times> string) list \<Rightarrow> string \<Rightarrow> string" where
  "form_get_or_empty frm k = (case map_of frm k of Some v \<Rightarrow> (if v \<noteq> [] then v else []) | None \<Rightarrow> [])"

section \<open>The request handlers\<close>

text \<open>
  A handler without a \<^verbatim>\<open>try\<close> returns \<open>Inl\<close> when an exception leaves it. The texts of
  Python's own exceptions are shortened; the texts of SQLite's errors are the library's.
\<close>

subsection \<open>Serving files\<close>

text \<open>
  \<^verbatim>\<open>static_files(path)\<close> and \<^verbatim>\<open>get_upload(filename)\<close>. werkzeug's \<^verbatim>\<open>NotFound\<close> in
  \<^verbatim>\<open>send_from_directory\<close> is answered by Flask with status 404.
\<close>

definition static_files :: "env \<Rightarrow> filesys \<Rightarrow> string \<Rightarrow> exn + response" where
  "static_files e f path =
     (let target = str_path (path_div (app_dir e) path)
      in if os_path_exists f target then send_file f target
         else Inr \<lparr>status = 404, body = Text ''Not Found''\<rparr>)"

definition send_from_directory :: "filesys \<Rightarrow> string \<Rightarrow> string \<Rightarrow> exn + response" where
  "send_from_directory f directory path =
     (case safe_join directory path of
        None \<Rightarrow> Inr \<lparr>status = 404, body = Text ''Not Found''\<rparr>
      | Some path_str \<Rightarrow>
          if \<not> os_path_isfile f path_str then Inr \<lparr>status = 404, body = Text ''Not Found''\<rparr>
          else send_file f path_str)"

definition get_upload :: "env \<Rightarrow> filesys \<Rightarrow> string \<Rightarrow> exn + response" where
  "get_upload e f fname = send_from_directory f (str_path (UPLOAD_DIR e)) fname"

subsection \<open>Login and admin key\<close>

definition login :: "db \<Rightarrow> (string \<times> string) list \<Rightarrow> response" where
  "login d frm =
     (let username = form_get_or_empty frm ''username'';
          password = form_get_or_empty frm ''password''
      in case users d of
           None \<Rightarrow>
             \<lparr>status = 500,
              body = Json (JObj [(''status'', JStr ''error''),
                                 (''message'', JStr (str_exn (OperationalError ''no such table: users'')))])\<rparr>
         | Some rows \<Rightarrow>
             (let row = find (\<lambda>r. u_username r = username \<and> u_password r = password) rows
              in jsonify 200 [(''status'', JStr (if row \<noteq> None then ''success'' else ''fail''))]))"

text \<open>
  The body of a check-key request as \<^verbatim>\<open>request.get_json(silent=True)\<close> reads it: absent,
  not declared as JSON, or not parseable give \<^verbatim>\<open>None\<close>; otherwise the decoded value.
\<close>

datatype json_body = Missing | NonJson | Malformed | Decoded json

fun get_json_silent :: "json_body \<Rightarrow> json option" where
  "get_json_silent (Decoded v) = Some v"
| "get_json_silent _ = None"

text \<open>
  A value bound to \<^verbatim>\<open>?\<close> by the sqlite3 module: \<^verbatim>\<open>None\<close> is NULL, a bool or an int is
  an INTEGER (64 bits), a string is TEXT; a list or a dict cannot be bound.
\<close>

datatype sql_value = SqlNull | SqlInteger int | SqlText string

fun bind_param :: "json \<Rightarrow> exn + sql_value" where
  "bind_param JNull = Inr SqlNull"
| "bind_param (JBool b) = Inr (SqlInteger (if b then 1 else 0))"
| "bind_param (JInt i) =
     (if - (2 ^ 63) \<le> i \<and> i < 2 ^ 63 then Inr (SqlInteger i)
      else Inl (OverflowError ''Python int too large to convert to SQLite INTEGER''))"
| "bind_param (JStr s) = Inr (SqlText s)"
| "bind_param (JArr xs) = Inl (ProgrammingError ''Error binding parameter 1: type list is not supported'')"
| "bind_param (JObj kvs) = Inl (ProgrammingError ''Error binding parameter 1: type dict is not supported'')"

text \<open>
  \<^verbatim>\<open>column = ?\<close> on a TEXT column: NULL equals nothing, an INTEGER is compared by its
  decimal text (the column's affinity is applied to the bound value).
\<close>

fun text_column_eq :: "string \<Rightarrow> sql_value \<Rightarrow> bool" where
  "text_column_eq col SqlNull = False"
| "text_column_eq col (SqlInteger i) = (col = str_int i)"
| "text_column_eq col (SqlText s) = (col = s)"

definition check_key :: "db \<Rightarrow> json_body \<Rightarrow> exn + response" where
  "check_key d b =
     (let data = (case get_json_silent b of
                    Some v \<Rightarrow> (if truthy v then v else JObj [])
                  | None \<Rightarrow> JObj [])
      in case data of
           JObj kvs \<Rightarrow>
             (let key = (case dict_get kvs ''key'' of Some v \<Rightarrow> v | None \<Rightarrow> JStr [])
              in case admin d of
                   None \<Rightarrow> Inl (OperationalError ''no such table: admin'')
                 | Some rows \<Rightarrow>
                     (case bind_param key of
                        Inl ex \<Rightarrow> Inl ex
                      | Inr v \<Rightarrow>
                          (let row = find (\<lambda>r. text_column_eq (a_adminpass r) v) rows
                           in Inr (jsonify 200 [(''ok'', JBool (row \<noteq> None))]))))
         | _ \<Rightarrow> Inl (AttributeError ''object has no attribute get''))"

subsection \<open>Employees\<close>

text \<open>Lines 170 to 184 of \<^verbatim>\<open>create_employee\<close>: the insert and the success response.\<close>

definition insert_and_respond ::
  "env \<Rightarrow> state \<Rightarrow> string \<Rightarrow> string \<Rightarrow> string \<Rightarrow> string \<Rightarrow> string \<Rightarrow> string option
     \<Rightarrow> state \<times> (exn + response)" where
  "insert_and_respond e s nm em dep rl roll photo_path =
     (case insert_employee (db s) (current_timestamp e) nm em dep rl roll photo_path of
        Inl ex \<Rightarrow> (s, Inl ex)
      | Inr (d', new_id) \<Rightarrow>
          (s\<lparr>db := d'\<rparr>,
           Inr (jsonify 201
                  [(''ok'', JBool True),
                   (''employee_id'', JInt new_id),
                   (''photo_url'',
                      (case photo_path of
                         Some p \<Rightarrow> (if p \<noteq> [] then JStr (''/uploads/'' @ basename p) else JNull)
                       | None \<Rightarrow> JNull))])))"

text \<open>
  Lines 164 to 166: the lower-cased extension \<open>x\<close> after the last dot, the sanitised
  name \<^verbatim>\<open><roll_number>_<seconds>.<ext>\<close>, and its place in the upload directory.
\<close>

definition photo_save_path :: "env \<Rightarrow> string \<Rightarrow> string \<Rightarrow> string list" where
  "photo_save_path e roll x =
     (let ext = py_lower x;
          fname = secure_filename e (roll @ ''_'' @ str_int (time_now e) @ ''.'' @ ext)
      in path_div (UPLOAD_DIR e) fname)"

text \<open>
  The \<^verbatim>\<open>try\<close> block of \<^verbatim>\<open>create_employee\<close>: the state it leaves and either the
  response it returns or the exception it raises.
\<close>

definition create_employee_try :: "env \<Rightarrow> state \<Rightarrow> create_request \<Rightarrow> state \<times> (exn + response)" where
  "create_employee_try e s req =
     (let nm = py_strip (form_get_or_empty (form req) ''name'');
          em = py_strip (form_get_or_empty (form req) ''email'');
          dep = py_strip (form_get_or_empty (form req) ''department'');
          rl = py_strip (form_get_or_empty (form req) ''role'');
          roll = py_strip (form_get_or_empty (form req) ''roll_number'');
          missing = map fst (filter (\<lambda>(k, v). v = [])
                      [(''name'', nm), (''email'', em), (''department'', dep),
                       (''role'', rl), (''roll_number'', roll)])
      in if missing \<noteq> []
         then (s, Inr (jsonify 400 [(''ok'', JBool False),
                         (''message'', JStr (''Missing fields: '' @ py_join '', '' missing))]))
         else (case map_of (files req) ''photo'' of
                 None \<Rightarrow> insert_and_respond e s nm em dep rl roll None
               | Some photo \<Rightarrow>
                   if filename photo \<noteq> [] then
                     (if \<not> allowed_file (filename photo)
                      then (s, Inr (jsonify 415 [(''ok'', JBool False),
                                      (''message'', JStr ''Unsupported image type'')]))
                      else (case rsplit1 CHR ''.'' (filename photo) of
                              None \<Rightarrow> (s, Inl (IndexError ''list index out of range''))
                            | Some (_, x) \<Rightarrow>
                                (let save_path = photo_save_path e roll x
                                 in case file_save (fs s) (str_path save_path) (content photo) of
                                      Inl ex \<Rightarrow> (s, Inl ex)
                                    | Inr f' \<Rightarrow>
                                        insert_and_respond e (s\<lparr>fs := f'\<rparr>) nm em dep rl roll
                                          (Some (str_path save_path)))))
                   else insert_and_respond e s nm em dep rl roll None))"

text \<open>The two \<^verbatim>\<open>except\<close> clauses.\<close>

definition create_employee :: "env \<Rightarrow> state \<Rightarrow> create_request \<Rightarrow> state \<times> response" where
  "create_employee e s req =
     (case create_employee_try e s req of
        (s', Inr r) \<Rightarrow> (s', r)
      | (s', Inl (IntegrityError m)) \<Rightarrow>
          (s', jsonify 409 [(''ok'', JBool False),
                  (''message'', JStr (if py_in ''UNIQUE'' (py_upper m)
                                      then ''Roll number already exists.'' else m))])
      | (s', Inl ex) \<Rightarrow>
          (s', jsonify 500 [(''ok'', JBool False), (''message'', JStr (str_exn ex))]))"

definition row_to_employee_dict :: "employee_row \<Rightarrow> json" where
  "row_to_employee_dict row =
     JObj [(''id'', JInt (e_id row)),
           (''name'', JStr (e_name row)),
           (''email'', JStr (e_email row)),
           (''department'', JStr (e_department row)),
           (''role'', JStr (e_role row)),
           (''roll_number'', JStr (e_roll_number row)),
           (''photo_url'',
              (case e_photo_path row of
                 Some p \<Rightarrow> (if p \<noteq> [] then JStr (''/uploads/'' @ basename p) else JNull)
               | None \<Rightarrow> JNull)),
           (''created_at'', JStr (e_created_at row))]"

text \<open>\<^verbatim>\<open>ORDER BY id DESC\<close>\<close>

definition order_by_id_desc :: "employee_row list \<Rightarrow> employee_row list" where
  "order_by_id_desc rows = rev (sort_key e_id rows)"

definition list_employees :: "db \<Rightarrow> exn + response" where
  "list_employees d =
     (case employees d of
        None \<Rightarrow> Inl (OperationalError ''no such table: employees'')
      | Some rows \<Rightarrow>
          Inr (jsonify 200 [(''ok'', JBool True),
                 (''employees'', JArr (map row_to_employee_dict (order_by_id_desc rows)))]))"

text \<open>
  An \<^verbatim>\<open>int\<close> bound to \<^verbatim>\<open>?\<close> by the sqlite3 module: an INTEGER of 64 bits; a larger
  value raises \<^verbatim>\<open>OverflowError\<close>.
\<close>

definition bind_int :: "int \<Rightarrow> exn + sql_value" where
  "bind_int i =
     (if - (2 ^ 63) \<le> i \<and> i < 2 ^ 63 then Inr (SqlInteger i)
      else Inl (OverflowError ''Python int too large to convert to SQLite INTEGER''))"

text \<open>
  \<^verbatim>\<open>delete_employee(emp_id)\<close>. The route \<^verbatim>\<open><int:emp_id>\<close> accepts every string of
  digits, so \<open>emp_id\<close> is any natural number. The \<^verbatim>\<open>SELECT\<close> is prepared, which needs
  the table, and then \<open>emp_id\<close> is bound to it; the handler has no \<^verbatim>\<open>try\<close> around
  either.
\<close>

definition delete_employee :: "state \<Rightarrow> int \<Rightarrow> exn + (state \<times> response)" where
  "delete_employee s emp_id =
     (case employees (db s) of
        None \<Rightarrow> Inl (OperationalError ''no such table: employees'')
      | Some rows \<Rightarrow>
          (case bind_int emp_id of
             Inl ex \<Rightarrow> Inl ex
           | Inr bound \<Rightarrow>
               (case find (\<lambda>r. SqlInteger (e_id r) = bound) rows of
                  None \<Rightarrow> Inr (s, jsonify 404 [(''ok'', JBool False),
                                     (''message'', JStr ''Employee not found'')])
                | Some row \<Rightarrow>
                    (let photo_path = e_photo_path row;
                         s1 = s\<lparr>db := (db s)\<lparr>employees :=
                                  Some (filter (\<lambda>r. SqlInteger (e_id r) \<noteq> bound) rows)\<rparr>\<rparr>;
                         s2 = (case photo_path of
                                 None \<Rightarrow> s1
                               | Some p \<Rightarrow>
                                   if p \<noteq> [] \<and> os_path_exists (fs s1) p
                                   then (case os_remove (fs s1) p of
                                           Inl ex \<Rightarrow> s1
                                         | Inr f' \<Rightarrow> s1\<lparr>fs := f'\<rparr>)
                                   else s1)
                     in Inr (s2, jsonify 200 [(''ok'', JBool True),
                                   (''message'', JStr ''Employee deleted'')])))))"

section \<open>Notions used in the statements\<close>

subsection \<open>Required fields and photo extension\<close>

definition required_fields :: "string list" where
  "required_fields = [''name'', ''email'', ''department'', ''role'', ''roll_number'']"

text \<open>A field of the form after trimming, as \<^verbatim>\<open>create_employee\<close> reads it.\<close>

definition field :: "create_request \<Rightarrow> string \<Rightarrow> string" where
  "field req k = py_strip (form_get_or_empty (form req) k)"

text \<open>A field is missing when the form does not have it or has only whitespace for it.\<close>

definition field_blank :: "create_request \<Rightarrow> string \<Rightarrow> bool" where
  "field_blank req k \<longleftrightarrow>
     (case map_of (form req) k of None \<Rightarrow> True | Some v \<Rightarrow> list_all py_isspace v)"

definition missing_fields :: "create_request \<Rightarrow> string list" where
  "missing_fields req = filter (field_blank req) required_fields"

text \<open>
  The extension of a file name is its last piece when cut at the dots, if there is a dot.
  It is allowed when it equals a member of the allow-set up to letter case.
\<close>

definition file_extension :: "string \<Rightarrow> string option" where
  "file_extension fname =
     (if CHR ''.'' \<in> set fname then Some (last (split_on CHR ''.'' fname)) else None)"

definition extension_allowed :: "string \<Rightarrow> bool" where
  "extension_allowed fname \<longleftrightarrow>
     (case file_extension fname of
        None \<Rightarrow> False
      | Some x \<Rightarrow> list_ex (\<lambda>a. py_lower x = py_lower a) ALLOWED_EXTENSIONS)"

text \<open>
  A request passes the photo step when no photo is attached, when the attached part has an
  empty file name, or when the name is allowed and the file is written.
\<close>

definition photo_stored :: "env \<Rightarrow> filesys \<Rightarrow> create_request \<Rightarrow> bool" where
  "photo_stored e f req \<longleftrightarrow>
     (case map_of (files req) ''photo'' of
        None \<Rightarrow> True
      | Some photo \<Rightarrow>
          filename photo = [] \<or>
          (allowed_file (filename photo) \<and>
           (case rsplit1 CHR ''.'' (filename photo) of
              None \<Rightarrow> False
            | Some (_, x) \<Rightarrow>
                (case file_save f (str_path (photo_save_path e (field req ''roll_number'') x))
                        (content photo) of
                   Inl _ \<Rightarrow> False
                 | Inr _ \<Rightarrow> True))))"

subsection \<open>Reachable states\<close>

text \<open>
  The server starts by running \<^verbatim>\<open>init_db\<close>, on a new database file or on the one a
  previous run left. Then it serves requests; only creating and deleting employees change
  the state. The disk may change in between by other means.
\<close>

inductive reachable :: "state \<Rightarrow> bool" where
  start: "reachable \<lparr>db = fst (init_db empty_db), fs = f\<rparr>"
| restart: "reachable s \<Longrightarrow> reachable (s\<lparr>db := fst (init_db (db s))\<rparr>)"
| create: "reachable s \<Longrightarrow> reachable (fst (create_employee e s req))"
| delete: "reachable s \<Longrightarrow> delete_employee s emp_id = Inr (s', r) \<Longrightarrow> reachable s'"
| disk: "reachable s \<Longrightarrow> reachable (s\<lparr>fs := f\<rparr>)"

text \<open>
  What the schema of the employees table guarantees: the table exists, ids and roll
  numbers are unique, no id exceeds the recorded sequence, and a recorded photo path is
  not the empty string.
\<close>

definition employees_wf :: "db \<Rightarrow> bool" where
  "employees_wf d \<longleftrightarrow>
     (case employees d of
        None \<Rightarrow> False
      | Some rows \<Rightarrow>
          distinct (map e_id rows) \<and> distinct (map e_roll_number rows) \<and>
          list_all (\<lambda>r. e_id r \<le> employees_seq d \<and> e_photo_path r \<noteq> Some []) rows)"

text \<open>
  The parts of a resolved directory path are plain names: not empty, not \<open>.\<close> or
  \<open>..\<close>, and without a slash.
\<close>

definition plain_names :: "string list \<Rightarrow> bool" where
  "plain_names segs \<longleftrightarrow>
     list_all (\<lambda>s. s \<noteq> [] \<and> s \<noteq> ''.'' \<and> s \<noteq> ''..'' \<and> CHR ''/'' \<notin> set s) segs"

text \<open>Running \<^verbatim>\<open>init_db\<close> \<open>n\<close> times in a row.\<close>

definition init_db_times :: "nat \<Rightarrow> db \<Rightarrow> db" where
  "init_db_times n d = ((\<lambda>x. fst (init_db x)) ^^ n) d"

subsection \<open>Example data\<close>

definition example_env :: env where
  "example_env = \<lparr>app_dir = [''srv'', ''app''], ascii_fold = (\<lambda>c. []),
                  time_now = 1730000000, current_timestamp = ''2024-10-27 03:33:20''\<rparr>"

definition example_fs :: filesys where
  "example_fs =
     \<lparr>nodes = [[''srv''] \<mapsto> Dir,
               [''srv'', ''secret.txt''] \<mapsto> File ''top secret'',
               [''srv'', ''app''] \<mapsto> Dir,
               [''srv'', ''app'', ''index.html''] \<mapsto> File ''<html></html>'',
               [''srv'', ''app'', ''uploads''] \<mapsto> Dir,
               [''srv'', ''app'', ''uploads'', ''R1_1730000000.png''] \<mapsto> File ''image''],
      denied = (\<lambda>loc. False),
      cwd = [''srv'', ''app'']\<rparr>"

definition seeded_db :: db where
  "seeded_db =
     \<lparr>users = Some [\<lparr>u_id = 1, u_username = ''hidan'', u_password = ''killer''\<rparr>],
      users_seq = 1,
      admin = Some [\<lparr>a_id = 1, a_adminpass = ''ceo@2025''\<rparr>],
      admin_seq = 1,
      employees = Some [],
      employees_seq = 0\<rparr>"

definition example_row :: "int \<Rightarrow> string \<Rightarrow> string option \<Rightarrow> employee_row" where
  "example_row i roll photo =
     \<lparr>e_id = i, e_name = ''Ann'', e_email = ''ann@example.org'', e_department = ''Sales'',
      e_role = ''Clerk'', e_roll_number = roll, e_photo_path = photo,
      e_created_at = ''2024-10-27 03:33:20''\<rparr>"

definition example_request :: create_request where
  "example_request =
     \<lparr>form = [(''name'', '' Ann ''), (''email'', ''ann@example.org''),
              (''department'', ''Sales''), (''role'', ''Clerk''), (''roll_number'', ''R1'')],
      files = []\<rparr>"

definition blank_request :: create_request where
  "blank_request =
     \<lparr>form = [(''name'', ''Ann''), (''email'', ''   ''), (''role'', []), (''roll_number'', ''R1'')],
      files = [(''photo'', \<lparr>filename = ''me.png'', content = ''image''\<rparr>)]\<rparr>"

definition pdf_request :: create_request where
  "pdf_request = example_request\<lparr>files := [(''photo'', \<lparr>filename = ''cv.PDF'', content = ''%PDF''\<rparr>)]\<rparr>"

definition duplicate_state :: state where
  "duplicate_state =
     \<lparr>db = seeded_db\<lparr>employees := Some [example_row 1 ''R1'' None], employees_seq := 1\<rparr>,
      fs = example_fs\<rparr>"

definition nameless_request :: create_request where
  "nameless_request =
     \<lparr>form = [(''email'', ''bob@example.org''), (''department'', ''Sales''),
              (''role'', ''Clerk''), (''roll_number'', ''R1'')],
      files = []\<rparr>"

definition unnamed_photo_request :: create_request where
  "unnamed_photo_request = example_request\<lparr>files := [(''photo'', \<lparr>filename = [], content = []\<rparr>)]\<rparr>"

definition three_rows_db :: db where
  "three_rows_db =
     seeded_db\<lparr>employees := Some [example_row 1 ''R1'' (Some ''/srv/app/uploads/R1_1730000000.png''),
                                   example_row 2 ''R2'' None,
                                   example_row 3 ''R3'' None],
               employees_seq := 3\<rparr>"

definition photo_state :: state where
  "photo_state =
     \<lparr>db = seeded_db\<lparr>employees := Some [example_row 1 ''R1'' (Some ''/srv/app/uploads/R1_1730000000.png'')],
                      employees_seq := 1\<rparr>,
      fs = example_fs\<rparr>"

definition example_view :: "int \<Rightarrow> string \<Rightarrow> json \<Rightarrow> json" where
  "example_view i roll url =
     JObj [(''id'', JInt i), (''name'', JStr ''Ann''), (''email'', JStr ''ann@example.org''),
           (''department'', JStr ''Sales''), (''role'', JStr ''Clerk''),
           (''roll_number'', JStr roll), (''photo_url'', url),
           (''created_at'', JStr ''2024-10-27 03:33:20'')]"

section \<open>Strings and lists\<close>

lemma py_strip_empty_iff: "py_strip s = [] \<longleftrightarrow> list_all py_isspace s"
proof
  assume "py_strip s = []"
  then have "dropWhile py_isspace (rev (dropWhile py_isspace s)) = []"
    by (simp add: py_strip_def)
  then have all: "\<forall>c \<in> set (dropWhile py_isspace s). py_isspace c"
    by simp
  have "dropWhile py_isspace s = []"
  proof (rule ccontr)
    assume ne: "dropWhile py_isspace s \<noteq> []"
    then have "\<not> py_isspace (hd (dropWhile py_isspace s))"
      by (rule hd_dropWhile)
    moreover have "hd (dropWhile py_isspace s) \<in> set (dropWhile py_isspace s)"
      using ne by simp
    ultimately show False using all by blast
  qed
  then show "list_all py_isspace s"
    by (simp add: list_all_iff)
next
  assume "list_all py_isspace s"
  then have "dropWhile py_isspace s = []"
    by (simp add: list_all_iff)
  then have "py_strip s = rev (dropWhile py_isspace (rev []))"
    by (simp only: py_strip_def)
  then show "py_strip s = []"
    by simp
qed

lemma split_when_not_Nil: "split_when P s \<noteq> []"
  by (induction s) (auto split: list.splits)

lemma split_when_none: "\<forall>c \<in> set s. \<not> P c \<Longrightarrow> split_when P s = [s]"
  by (induction s) auto

lemma length_split_when: "length (split_when P s) = Suc (length (filter P s))"
  by (induction s) (auto split: list.splits)

lemma split_when_some:
  assumes "\<exists>c \<in> set s. P c"
  shows "tl (split_when P s) \<noteq> []"
proof -
  from assms have "filter P s \<noteq> []"
    by (simp add: filter_empty_conv)
  then have "length (split_when P s) \<ge> 2"
    by (cases "filter P s") (simp_all add: length_split_when)
  then show ?thesis
    by (cases "split_when P s") auto
qed

lemma last_split_when:
  "last (split_when P s) = rev (takeWhile (\<lambda>c. \<not> P c) (rev s))"
proof (induction s)
  case Nil
  show ?case by simp
next
  case (Cons c cs)
  show ?case
  proof (cases "\<forall>x \<in> set cs. \<not> P x")
    case True
    then show ?thesis
      by (simp add: split_when_none takeWhile_append)
  next
    case False
    then have "tl (split_when P cs) \<noteq> []"
      by (simp add: split_when_some)
    with False Cons show ?thesis
      by (auto simp: takeWhile_append split_when_not_Nil split: list.splits)
  qed
qed

lemma split_when_pieces: "w \<in> set (split_when P s) \<Longrightarrow> \<forall>c \<in> set w. \<not> P c"
proof (induction s arbitrary: w)
  case Nil
  then show ?case by simp
next
  case (Cons x xs)
  obtain v vs where v: "split_when P xs = v # vs"
    using split_when_not_Nil [of P xs] by (cases "split_when P xs") auto
  have tail: "\<forall>c \<in> set u. \<not> P c" if "u \<in> set (v # vs)" for u
    using Cons.IH [of u] that v by simp
  show ?case
  proof (cases "P x")
    case True
    with Cons.prems v have "w = [] \<or> w \<in> set (v # vs)" by auto
    with tail show ?thesis by auto
  next
    case False
    with Cons.prems v have "w = x # v \<or> w \<in> set vs" by auto
    then show ?thesis
    proof
      assume "w = x # v"
      with False tail [of v] show ?thesis by simp
    next
      assume "w \<in> set vs"
      with tail [of w] show ?thesis by simp
    qed
  qed
qed

lemma split_when_append:
  assumes "\<forall>x \<in> set xs. \<not> P x" and "P c"
  shows "split_when P (xs @ c # ys) = xs # split_when P ys"
  using assms by (induction xs) auto

lemma split_when_join:
  assumes "segs \<noteq> []" and "\<forall>s \<in> set segs. CHR ''/'' \<notin> set s"
  shows "split_when (\<lambda>c. c = CHR ''/'') (py_join ''/'' segs) = segs"
  using assms
proof (induction segs)
  case Nil
  then show ?case by simp
next
  case (Cons x ys)
  have x: "\<forall>c \<in> set x. \<not> c = CHR ''/''" using Cons.prems by auto
  show ?case
  proof (cases ys)
    case Nil
    with x show ?thesis by (simp add: split_when_none)
  next
    case (Cons y zs)
    with Cons.IH Cons.prems
    have "split_when (\<lambda>c. c = CHR ''/'') (py_join ''/'' ys) = ys" by simp
    with Cons x show ?thesis
      using split_when_append [of x "\<lambda>c. c = CHR ''/''" "CHR ''/''" "py_join ''/'' ys"]
      by simp
  qed
qed

lemma py_join_append:
  assumes "xs \<noteq> []" and "ys \<noteq> []"
  shows "py_join sep (xs @ ys) = py_join sep xs @ sep @ py_join sep ys"
  using assms
proof (induction xs)
  case Nil
  then show ?case by simp
next
  case (Cons x xs)
  show ?case
  proof (cases xs)
    case Nil
    with Cons.prems show ?thesis by (cases ys) simp_all
  next
    case (Cons z zs)
    with Cons.IH Cons.prems show ?thesis by simp
  qed
qed

lemma py_join_not_empty:
  assumes "segs \<noteq> []" and "hd segs \<noteq> []"
  shows "py_join sep segs \<noteq> []"
proof (cases segs)
  case Nil
  with assms show ?thesis by simp
next
  case (Cons x xs)
  with assms show ?thesis by (cases xs) simp_all
qed

lemma py_join_last_not_empty:
  assumes "segs \<noteq> []" and "last segs \<noteq> []"
  shows "py_join sep segs \<noteq> []"
  using assms
proof (induction segs)
  case Nil
  then show ?case by simp
next
  case (Cons x xs)
  then show ?case by (cases xs) simp_all
qed

lemma last_py_join:
  assumes "segs \<noteq> []" and "last segs \<noteq> []"
  shows "last (py_join sep segs) = last (last segs)"
  using assms
proof (induction segs)
  case Nil
  then show ?case by simp
next
  case (Cons x xs)
  show ?case
  proof (cases xs)
    case Nil
    then show ?thesis by simp
  next
    case (Cons y ys)
    with Cons.IH Cons.prems have ih: "last (py_join sep xs) = last (last xs)" by simp
    have "py_join sep xs \<noteq> []"
      using Cons Cons.prems by (intro py_join_last_not_empty) simp_all
    with Cons ih show ?thesis by simp
  qed
qed

lemma py_join_dotdot:
  assumes "segs = ''..'' # others"
  shows "py_join ''/'' segs = ''..'' \<or> take 3 (py_join ''/'' segs) = ''../''"
  using assms by (cases others) simp_all

lemma basename_no_slash: "CHR ''/'' \<notin> set (basename p)"
proof -
  have "\<forall>c \<in> set (takeWhile (\<lambda>c. c \<noteq> CHR ''/'') (rev p)). c \<noteq> CHR ''/''"
    by (metis set_takeWhileD)
  then show ?thesis by (auto simp: basename_def)
qed

lemma find_Some_ex: "find P xs \<noteq> None \<longleftrightarrow> (\<exists>x \<in> set xs. P x)"
  by (auto simp: find_None_iff)

lemma find_ex_Some: "(\<exists>y. find P xs = Some y) \<longleftrightarrow> (\<exists>x \<in> set xs. P x)"
  using find_Some_ex [of P xs] by auto

lemma filter_id_remove1:
  assumes "distinct (map f xs)" and "x \<in> set xs"
  shows "filter (\<lambda>r. f r \<noteq> f x) xs = remove1 x xs"
  using assms
proof (induction xs)
  case Nil
  then show ?case by simp
next
  case (Cons y ys)
  show ?case
  proof (cases "y = x")
    case True
    with Cons.prems have "f x \<notin> f ` set ys" by simp
    then have "\<forall>r \<in> set ys. f r \<noteq> f x" by (metis imageI)
    then have "filter (\<lambda>r. f r \<noteq> f x) ys = ys" by (simp add: filter_id_conv)
    with True show ?thesis by simp
  next
    case False
    with Cons.prems have "x \<in> set ys" "f y \<noteq> f x" by auto
    with Cons False show ?thesis by simp
  qed
qed

section \<open>Validation of a create request\<close>

lemma field_empty_iff: "field req k = [] \<longleftrightarrow> field_blank req k"
  by (simp add: field_def py_strip_empty_iff form_get_or_empty_def field_blank_def
           split: option.splits)

lemma missing_fields_model:
  "map fst (filter (\<lambda>(k, v). v = [])
     [(''name'', field req ''name''),
      (''email'', field req ''email''),
      (''department'', field req ''department''),
      (''role'', field req ''role''),
      (''roll_number'', field req ''roll_number'')])
   = missing_fields req"
  by (simp add: missing_fields_def required_fields_def field_empty_iff)

lemmas try_unfold = create_employee_try_def [folded field_def, unfolded Let_def missing_fields_model]

lemma create_employee_try_missing:
  assumes "missing_fields req \<noteq> []"
  shows "create_employee_try e s req =
           (s, Inr (jsonify 400 [(''ok'', JBool False),
                 (''message'', JStr (''Missing fields: '' @ py_join '', '' (missing_fields req)))]))"
  unfolding try_unfold using assms by simp

text \<open>
  C3: when at least one of name, email, department, role, roll_number is absent or only
  whitespace, \<^verbatim>\<open>create_employee\<close> answers 400 with a message that lists all such
  fields, and the state (database and disk) is the one before the request.
\<close>

theorem missing_fields_rejected:
  assumes "missing_fields req \<noteq> []"
  shows "create_employee e s req =
           (s, jsonify 400 [(''ok'', JBool False),
                 (''message'', JStr (''Missing fields: '' @ py_join '', '' (missing_fields req)))])"
  by (simp only: create_employee_def create_employee_try_missing [OF assms] prod.case sum.case)

theorem missing_fields_rejected_witness:
  "missing_fields blank_request \<noteq> [] \<and>
   create_employee example_env \<lparr>db = seeded_db, fs = example_fs\<rparr> blank_request =
     (\<lparr>db = seeded_db, fs = example_fs\<rparr>,
      jsonify 400 [(''ok'', JBool False),
        (''message'', JStr ''Missing fields: email, department, role'')])"
proof -
  have m: "missing_fields blank_request = [''email'', ''department'', ''role'']"
    by (simp add: missing_fields_def required_fields_def field_blank_def blank_request_def
          py_isspace_def)
  then have ne: "missing_fields blank_request \<noteq> []" by simp
  show ?thesis
    using missing_fields_rejected [OF ne, of example_env "\<lparr>db = seeded_db, fs = example_fs\<rparr>"]
    by (simp add: m)
qed

lemma py_lower_allowed: "a \<in> set ALLOWED_EXTENSIONS \<Longrightarrow> py_lower a = a"
  by (auto simp: ALLOWED_EXTENSIONS_def py_lower_def upper_letters_def lower_letters_def)

lemma allowed_file_iff: "allowed_file fname \<longleftrightarrow> extension_allowed fname"
proof -
  have "list_ex (\<lambda>a. py_lower x = py_lower a) ALLOWED_EXTENSIONS
          \<longleftrightarrow> py_lower x \<in> set ALLOWED_EXTENSIONS" for x
    using py_lower_allowed by (auto simp: list_ex_iff) 
  then show ?thesis
    by (simp add: allowed_file_def extension_allowed_def file_extension_def rsplit1_def
          split_on_def last_split_when)
qed

text \<open>
  C4: when all required fields are present and the attached photo has a file name whose
  extension, compared without regard to letter case, is not one of png, jpg, jpeg, webp,
  gif, \<^verbatim>\<open>create_employee\<close> answers 415 and the state is the one before the request:
  no file is saved and no row is inserted.
\<close>

theorem unsupported_photo_rejected:
  assumes "missing_fields req = []"
    and "map_of (files req) ''photo'' = Some photo"
    and "filename photo \<noteq> []"
    and "\<not> extension_allowed (filename photo)"
  shows "create_employee e s req =
           (s, jsonify 415 [(''ok'', JBool False), (''message'', JStr ''Unsupported image type'')])"
proof -
  have "create_employee_try e s req =
          (s, Inr (jsonify 415 [(''ok'', JBool False), (''message'', JStr ''Unsupported image type'')]))"
    unfolding try_unfold using assms by (simp add: allowed_file_iff)
  then show ?thesis
    by (simp only: create_employee_def prod.case sum.case)
qed

lemma missing_fields_example: "missing_fields example_request = []"
  by (simp add: missing_fields_def required_fields_def field_blank_def example_request_def
        py_isspace_def)

theorem unsupported_photo_rejected_witness:
  "missing_fields pdf_request = [] \<and>
   map_of (files pdf_request) ''photo'' = Some \<lparr>filename = ''cv.PDF'', content = ''%PDF''\<rparr> \<and>
   filename \<lparr>filename = ''cv.PDF'', content = ''%PDF''\<rparr> \<noteq> [] \<and>
   \<not> extension_allowed (filename \<lparr>filename = ''cv.PDF'', content = ''%PDF''\<rparr>) \<and>
   create_employee example_env \<lparr>db = seeded_db, fs = example_fs\<rparr> pdf_request =
     (\<lparr>db = seeded_db, fs = example_fs\<rparr>,
      jsonify 415 [(''ok'', JBool False), (''message'', JStr ''Unsupported image type'')])"
proof -
  have a: "missing_fields pdf_request = []"
    by (simp add: missing_fields_def required_fields_def field_blank_def pdf_request_def
          example_request_def py_isspace_def)
  have b: "map_of (files pdf_request) ''photo'' = Some \<lparr>filename = ''cv.PDF'', content = ''%PDF''\<rparr>"
    by (simp add: pdf_request_def)
  have c: "filename \<lparr>filename = ''cv.PDF'', content = ''%PDF''\<rparr> \<noteq> []"
    by simp
  have d: "\<not> extension_allowed (filename \<lparr>filename = ''cv.PDF'', content = ''%PDF''\<rparr>)"
    by (simp add: extension_allowed_def file_extension_def split_on_def ALLOWED_EXTENSIONS_def
          py_lower_def upper_letters_def lower_letters_def)
  show ?thesis
    using unsupported_photo_rejected [OF a b c d, of example_env "\<lparr>db = seeded_db, fs = example_fs\<rparr>"]
      a b c d by simp
qed

section \<open>Schema initialisation\<close>

lemma next_rowid_Max: "next_rowid seq ids = Max (set (seq # ids)) + 1"
  by (simp only: next_rowid_def Max.set_eq_fold)

lemma next_rowid_gt_seq: "seq < next_rowid seq ids"
proof -
  have "seq \<le> Max (set (seq # ids))" by (rule Max_ge) simp_all
  then show ?thesis unfolding next_rowid_Max by arith
qed

lemma next_rowid_gt_ids: "i \<in> set ids \<Longrightarrow> i < next_rowid seq ids"
proof -
  assume "i \<in> set ids"
  then have "i \<le> Max (set (seq # ids))" by (intro Max_ge) simp_all
  then show ?thesis unfolding next_rowid_Max by arith
qed

lemma init_db_no_exception: "snd (init_db d) = None"
  by (simp add: init_db_def insert_user_def insert_admin_def Let_def split: option.splits)

lemma init_db_employees:
  "employees (fst (init_db d)) = Some (case employees d of None \<Rightarrow> [] | Some rows \<Rightarrow> rows)"
  by (simp add: init_db_def insert_user_def insert_admin_def Let_def split: option.splits)

lemma init_db_employees_seq: "employees_seq (fst (init_db d)) = employees_seq d"
  by (simp add: init_db_def insert_user_def insert_admin_def Let_def split: option.splits)

lemma init_db_users:
  "users (fst (init_db d)) =
     Some (case users d of
             None \<Rightarrow> [\<lparr>u_id = users_seq d + 1, u_username = ''hidan'', u_password = ''killer''\<rparr>]
           | Some rows \<Rightarrow>
               if rows = []
               then [\<lparr>u_id = users_seq d + 1, u_username = ''hidan'', u_password = ''killer''\<rparr>]
               else rows)"
  by (simp add: init_db_def insert_user_def insert_admin_def Let_def next_rowid_def
           split: option.splits)

lemma init_db_users_seq:
  "users_seq (fst (init_db d)) =
     (if users d = None \<or> users d = Some [] then users_seq d + 1 else users_seq d)"
  by (simp add: init_db_def insert_user_def insert_admin_def Let_def next_rowid_def
           split: option.splits)

lemma init_db_admin:
  "admin (fst (init_db d)) =
     Some (case admin d of
             None \<Rightarrow> [\<lparr>a_id = admin_seq d + 1, a_adminpass = ''ceo@2025''\<rparr>]
           | Some rows \<Rightarrow>
               if rows = []
               then [\<lparr>a_id = admin_seq d + 1, a_adminpass = ''ceo@2025''\<rparr>]
               else rows)"
  by (simp add: init_db_def insert_user_def insert_admin_def Let_def next_rowid_def
           split: option.splits)

lemma init_db_admin_seq:
  "admin_seq (fst (init_db d)) =
     (if admin d = None \<or> admin d = Some [] then admin_seq d + 1 else admin_seq d)"
  by (simp add: init_db_def insert_user_def insert_admin_def Let_def next_rowid_def
           split: option.splits)

lemma init_db_twice: "fst (init_db (fst (init_db d))) = fst (init_db d)"
proof (rule db.equality)
  show "users (fst (init_db (fst (init_db d)))) = users (fst (init_db d))"
    by (simp add: init_db_users split: option.splits)
  show "users_seq (fst (init_db (fst (init_db d)))) = users_seq (fst (init_db d))"
    by (simp add: init_db_users init_db_users_seq split: option.splits)
  show "admin (fst (init_db (fst (init_db d)))) = admin (fst (init_db d))"
    by (simp add: init_db_admin split: option.splits)
  show "admin_seq (fst (init_db (fst (init_db d)))) = admin_seq (fst (init_db d))"
    by (simp add: init_db_admin init_db_admin_seq split: option.splits)
  show "employees (fst (init_db (fst (init_db d)))) = employees (fst (init_db d))"
    by (simp add: init_db_employees)
  show "employees_seq (fst (init_db (fst (init_db d)))) = employees_seq (fst (init_db d))"
    by (simp add: init_db_employees_seq)
  show "db.more (fst (init_db (fst (init_db d)))) = db.more (fst (init_db d))"
    by simp
qed

lemma init_db_times_pos: "0 < n \<Longrightarrow> init_db_times n d = fst (init_db d)"
proof (induction n)
  case 0
  then show ?case by simp
next
  case (Suc n)
  show ?case
  proof (cases "n = 0")
    case True
    then show ?thesis by (simp add: init_db_times_def)
  next
    case False
    with Suc have "init_db_times n d = fst (init_db d)" by simp
    then show ?thesis by (simp add: init_db_times_def init_db_twice)
  qed
qed

text \<open>
  C9: \<^verbatim>\<open>init_db\<close> never raises and is idempotent: a second run changes nothing, and
  any positive number of runs gives the result of one run. Afterwards the three tables
  exist; a users table that was absent or empty holds exactly the seeded account, an admin
  table that was absent or empty holds exactly the seeded key, and tables that had rows
  keep them.
\<close>

theorem init_db_idempotent:
  "snd (init_db d) = None \<and>
   init_db (fst (init_db d)) = init_db d \<and>
   (0 < n \<longrightarrow> init_db_times n d = fst (init_db d)) \<and>
   users (fst (init_db d)) \<noteq> None \<and>
   admin (fst (init_db d)) \<noteq> None \<and>
   employees (fst (init_db d)) \<noteq> None \<and>
   (users d = None \<or> users d = Some [] \<longrightarrow>
      users (fst (init_db d)) =
        Some [\<lparr>u_id = users_seq d + 1, u_username = ''hidan'', u_password = ''killer''\<rparr>]) \<and>
   (admin d = None \<or> admin d = Some [] \<longrightarrow>
      admin (fst (init_db d)) = Some [\<lparr>a_id = admin_seq d + 1, a_adminpass = ''ceo@2025''\<rparr>]) \<and>
   (\<forall>rows. users d = Some rows \<and> rows \<noteq> [] \<longrightarrow> users (fst (init_db d)) = Some rows) \<and>
   (\<forall>rows. admin d = Some rows \<and> rows \<noteq> [] \<longrightarrow> admin (fst (init_db d)) = Some rows) \<and>
   (\<forall>rows. employees d = Some rows \<longrightarrow> employees (fst (init_db d)) = Some rows)"
proof -
  have "init_db (fst (init_db d)) = init_db d"
    by (rule prod_eqI) (simp_all add: init_db_twice init_db_no_exception)
  moreover have "0 < n \<longrightarrow> init_db_times n d = fst (init_db d)"
    by (simp add: init_db_times_pos)
  ultimately show ?thesis
    by (auto simp: init_db_no_exception init_db_users init_db_admin init_db_employees)
qed

lemma init_db_empty: "init_db empty_db = (seeded_db, None)"
  by (simp add: init_db_def empty_db_def seeded_db_def insert_user_def insert_admin_def
        next_rowid_def)

theorem init_db_idempotent_witness:
  "init_db empty_db = (seeded_db, None) \<and>
   init_db seeded_db = (seeded_db, None) \<and>
   (0::nat) < 3 \<and> init_db_times 3 empty_db = seeded_db \<and>
   users empty_db = None \<and> admin empty_db = None \<and>
   users seeded_db = Some [\<lparr>u_id = 1, u_username = ''hidan'', u_password = ''killer''\<rparr>] \<and>
   admin seeded_db = Some [\<lparr>a_id = 1, a_adminpass = ''ceo@2025''\<rparr>] \<and>
   employees seeded_db = Some []"
  using init_db_idempotent [of empty_db 3]
  by (simp add: init_db_empty) (simp add: seeded_db_def empty_db_def)

section \<open>Inserting an employee\<close>

lemma insert_and_respond_duplicate:
  assumes "employees (db s) = Some rows" and "roll \<in> set (map e_roll_number rows)"
  shows "insert_and_respond e s nm em dep rl roll photo =
           (s, Inl (IntegrityError ''UNIQUE constraint failed: employees.roll_number''))"
  using assms by (simp add: insert_and_respond_def insert_employee_def)

lemma insert_and_respond_new:
  assumes "employees (db s) = Some rows" and "roll \<notin> set (map e_roll_number rows)"
  shows "insert_and_respond e s nm em dep rl roll photo =
           (s\<lparr>db := (db s)\<lparr>employees := Some (rows @
                   [\<lparr>e_id = next_rowid (employees_seq (db s)) (map e_id rows),
                     e_name = nm, e_email = em, e_department = dep, e_role = rl,
                     e_roll_number = roll, e_photo_path = photo,
                     e_created_at = current_timestamp e\<rparr>]),
                 employees_seq := next_rowid (employees_seq (db s)) (map e_id rows)\<rparr>\<rparr>,
            Inr (jsonify 201
                  [(''ok'', JBool True),
                   (''employee_id'', JInt (next_rowid (employees_seq (db s)) (map e_id rows))),
                   (''photo_url'',
                      (case photo of
                         Some p \<Rightarrow> (if p \<noteq> [] then JStr (''/uploads/'' @ basename p) else JNull)
                       | None \<Rightarrow> JNull))]))"
  using assms by (simp add: insert_and_respond_def insert_employee_def Let_def)

lemma insert_and_respond_fs: "fs (fst (insert_and_respond e s nm em dep rl roll photo)) = fs s"
  by (simp add: insert_and_respond_def split: sum.splits prod.splits)

lemma unique_message:
  "py_in ''UNIQUE'' (py_upper ''UNIQUE constraint failed: employees.roll_number'')"
  by (simp add: py_upper_def lower_letters_def upper_letters_def)

lemma create_employee_try_no_photo:
  assumes "missing_fields req = []"
    and "case map_of (files req) ''photo'' of None \<Rightarrow> True | Some p \<Rightarrow> filename p = []"
  shows "create_employee_try e s req =
           insert_and_respond e s (field req ''name'') (field req ''email'')
             (field req ''department'') (field req ''role'') (field req ''roll_number'') None"
proof (cases "map_of (files req) ''photo''")
  case None
  with assms(1) show ?thesis unfolding try_unfold by simp
next
  case (Some p)
  with assms have "filename p = []" by simp
  with assms(1) Some show ?thesis unfolding try_unfold by simp
qed

text \<open>
  A request that passes validation and the photo step reaches the insert, with the
  disk possibly changed by the saved photo.
\<close>

lemma create_employee_try_stored:
  assumes "missing_fields req = []" and "photo_stored e (fs s) req"
  shows "\<exists>f' photo. create_employee_try e s req =
           insert_and_respond e (s\<lparr>fs := f'\<rparr>) (field req ''name'') (field req ''email'')
             (field req ''department'') (field req ''role'') (field req ''roll_number'') photo"
proof (cases "case map_of (files req) ''photo'' of None \<Rightarrow> True | Some p \<Rightarrow> filename p = []")
  case True
  have "create_employee_try e s req =
           insert_and_respond e (s\<lparr>fs := fs s\<rparr>) (field req ''name'') (field req ''email'')
             (field req ''department'') (field req ''role'') (field req ''roll_number'') None"
    using create_employee_try_no_photo [OF assms(1) True] by simp
  then show ?thesis by blast
next
  case False
  then obtain p where p: "map_of (files req) ''photo'' = Some p" "filename p \<noteq> []"
    by (auto split: option.splits)
  with assms(2) obtain b x where
    ok: "allowed_file (filename p)" "rsplit1 CHR ''.'' (filename p) = Some (b, x)"
    and sv: "case file_save (fs s) (str_path (photo_save_path e (field req ''roll_number'') x))
                  (content p) of Inl _ \<Rightarrow> False | Inr _ \<Rightarrow> True"
    by (auto simp: photo_stored_def split: option.splits)
  from sv obtain f' where
    f': "file_save (fs s) (str_path (photo_save_path e (field req ''roll_number'') x)) (content p) = Inr f'"
    by (cases "file_save (fs s) (str_path (photo_save_path e (field req ''roll_number'') x)) (content p)")
       auto
  have "create_employee_try e s req =
           insert_and_respond e (s\<lparr>fs := f'\<rparr>) (field req ''name'') (field req ''email'')
             (field req ''department'') (field req ''role'') (field req ''roll_number'')
             (Some (str_path (photo_save_path e (field req ''roll_number'') x)))"
    unfolding try_unfold using assms(1) p ok f' by simp
  then show ?thesis by blast
qed

lemma create_employee_state: "fst (create_employee e s req) = fst (create_employee_try e s req)"
  by (simp add: create_employee_def split: prod.splits sum.splits exn.splits)

lemma create_employee_duplicate:
  assumes "employees (db s) = Some rows"
    and "missing_fields req = []"
    and "photo_stored e (fs s) req"
    and "field req ''roll_number'' \<in> set (map e_roll_number rows)"
  shows "snd (create_employee e s req) =
           jsonify 409 [(''ok'', JBool False), (''message'', JStr ''Roll number already exists.'')]"
    and "db (fst (create_employee e s req)) = db s"
proof -
  from create_employee_try_stored [OF assms(2,3)] obtain f' photo where
    t: "create_employee_try e s req =
          insert_and_respond e (s\<lparr>fs := f'\<rparr>) (field req ''name'') (field req ''email'')
            (field req ''department'') (field req ''role'') (field req ''roll_number'') photo"
    by blast
  have "employees (db (s\<lparr>fs := f'\<rparr>)) = Some rows"
    using assms(1) by simp
  from insert_and_respond_duplicate [OF this assms(4)] t
  have r: "create_employee_try e s req =
          (s\<lparr>fs := f'\<rparr>, Inl (IntegrityError ''UNIQUE constraint failed: employees.roll_number''))"
    by simp
  show "snd (create_employee e s req) =
           jsonify 409 [(''ok'', JBool False), (''message'', JStr ''Roll number already exists.'')]"
    using unique_message by (simp add: create_employee_def r)
  show "db (fst (create_employee e s req)) = db s"
    by (simp add: create_employee_def r)
qed

lemma create_employee_new:
  assumes "employees (db s) = Some rows"
    and "missing_fields req = []"
    and "photo_stored e (fs s) req"
    and "field req ''roll_number'' \<notin> set (map e_roll_number rows)"
  shows "status (snd (create_employee e s req)) = 201"
    and "\<exists>row. employees (db (fst (create_employee e s req))) = Some (rows @ [row]) \<and>
               e_roll_number row = field req ''roll_number''"
proof -
  from create_employee_try_stored [OF assms(2,3)] obtain f' photo where
    t: "create_employee_try e s req =
          insert_and_respond e (s\<lparr>fs := f'\<rparr>) (field req ''name'') (field req ''email'')
            (field req ''department'') (field req ''role'') (field req ''roll_number'') photo"
    by blast
  have "employees (db (s\<lparr>fs := f'\<rparr>)) = Some rows"
    using assms(1) by simp
  note r = t [unfolded insert_and_respond_new [OF this assms(4)]]
  show "status (snd (create_employee e s req)) = 201"
    by (simp add: create_employee_def r jsonify_def)
  show "\<exists>row. employees (db (fst (create_employee e s req))) = Some (rows @ [row]) \<and>
               e_roll_number row = field req ''roll_number''"
    by (simp add: create_employee_def r)
qed

lemma example_create:
  "create_employee example_env \<lparr>db = seeded_db, fs = example_fs\<rparr> example_request =
     (duplicate_state,
      jsonify 201 [(''ok'', JBool True), (''employee_id'', JInt 1), (''photo_url'', JNull)])"
proof -
  have "field example_request ''name'' = ''Ann''"
    by (simp add: field_def example_request_def form_get_or_empty_def py_strip_def py_isspace_def)
  moreover have "field example_request ''email'' = ''ann@example.org''"
    by (simp add: field_def example_request_def form_get_or_empty_def py_strip_def py_isspace_def)
  moreover have "field example_request ''department'' = ''Sales''"
    by (simp add: field_def example_request_def form_get_or_empty_def py_strip_def py_isspace_def)
  moreover have "field example_request ''role'' = ''Clerk''"
    by (simp add: field_def example_request_def form_get_or_empty_def py_strip_def py_isspace_def)
  moreover have "field example_request ''roll_number'' = ''R1''"
    by (simp add: field_def example_request_def form_get_or_empty_def py_strip_def py_isspace_def)
  moreover have "map_of (files example_request) ''photo'' = None"
    by (simp add: example_request_def)
  ultimately have "create_employee_try example_env \<lparr>db = seeded_db, fs = example_fs\<rparr> example_request =
     (duplicate_state,
      Inr (jsonify 201 [(''ok'', JBool True), (''employee_id'', JInt 1), (''photo_url'', JNull)]))"
    using create_employee_try_no_photo [OF missing_fields_example, of example_env
            "\<lparr>db = seeded_db, fs = example_fs\<rparr>"]
    by (simp add: insert_and_respond_def insert_employee_def seeded_db_def next_rowid_def
          duplicate_state_def example_row_def example_env_def)
  then show ?thesis by (simp add: create_employee_def)
qed

section \<open>The invariant of the employees table\<close>

lemma str_path_not_empty: "str_path p \<noteq> []"
  by (simp add: str_path_def)

lemma insert_employee_wf:
  assumes "employees_wf d" and "photo \<noteq> Some []"
    and "insert_employee d stamp nm em dep rl roll photo = Inr (d', i)"
  shows "employees_wf d'"
proof -
  from assms(1) obtain rows where rows: "employees d = Some rows"
    and wf: "distinct (map e_id rows)" "distinct (map e_roll_number rows)"
            "list_all (\<lambda>r. e_id r \<le> employees_seq d \<and> e_photo_path r \<noteq> Some []) rows"
    by (auto simp: employees_wf_def split: option.splits)
  let ?i = "next_rowid (employees_seq d) (map e_id rows)"
  from assms(3) rows have new: "roll \<notin> set (map e_roll_number rows)"
    and d': "d' = d\<lparr>employees := Some (rows @
                    [\<lparr>e_id = ?i, e_name = nm, e_email = em, e_department = dep, e_role = rl,
                      e_roll_number = roll, e_photo_path = photo, e_created_at = stamp\<rparr>]),
                  employees_seq := ?i\<rparr>"
    by (auto simp: insert_employee_def Let_def split: if_splits)
  have fresh: "?i \<notin> set (map e_id rows)"
    using next_rowid_gt_ids [of _ "map e_id rows" "employees_seq d"] by force
  have le: "list_all (\<lambda>r. e_id r \<le> ?i \<and> e_photo_path r \<noteq> Some []) rows"
    using wf(3) next_rowid_gt_seq [of "employees_seq d" "map e_id rows"]
    by (auto simp: list_all_iff)
  show ?thesis
    using wf new fresh le assms(2) by (simp add: d' employees_wf_def)
qed

lemma insert_and_respond_wf:
  assumes "employees_wf (db s)" and "photo \<noteq> Some []"
  shows "employees_wf (db (fst (insert_and_respond e s nm em dep rl roll photo)))"
proof (cases "insert_employee (db s) (current_timestamp e) nm em dep rl roll photo")
  case (Inl ex)
  with assms(1) show ?thesis by (simp add: insert_and_respond_def)
next
  case (Inr res)
  obtain d' i where "res = (d', i)" by (cases res)
  with Inr assms show ?thesis
    using insert_employee_wf [of "db s" photo "current_timestamp e" nm em dep rl roll d' i]
    by (simp add: insert_and_respond_def)
qed

lemma create_employee_try_wf:
  assumes "employees_wf (db s)"
  shows "employees_wf (db (fst (create_employee_try e s req)))"
proof -
  have base: "employees_wf (db (fst (insert_and_respond e s' nm em dep rl roll photo)))"
    if "db s' = db s" and "photo \<noteq> Some []" for s' nm em dep rl roll photo
    using insert_and_respond_wf [of s' photo] assms that by simp
  show ?thesis
    unfolding try_unfold
    using assms
    by (auto simp: base str_path_not_empty split: option.splits sum.splits)
qed

text \<open>
  \<^verbatim>\<open>delete_employee\<close> for an id that fits into 64 bits, and for one that does not.
\<close>

lemma delete_employee_bound:
  assumes "- (2 ^ 63) \<le> emp_id" and "emp_id < 2 ^ 63"
  shows "delete_employee s emp_id =
     (case employees (db s) of
        None \<Rightarrow> Inl (OperationalError ''no such table: employees'')
      | Some rows \<Rightarrow>
          (case find (\<lambda>r. e_id r = emp_id) rows of
             None \<Rightarrow> Inr (s, jsonify 404 [(''ok'', JBool False),
                                (''message'', JStr ''Employee not found'')])
           | Some row \<Rightarrow>
               (let photo_path = e_photo_path row;
                    s1 = s\<lparr>db := (db s)\<lparr>employees := Some (filter (\<lambda>r. e_id r \<noteq> emp_id) rows)\<rparr>\<rparr>;
                    s2 = (case photo_path of
                            None \<Rightarrow> s1
                          | Some p \<Rightarrow>
                              if p \<noteq> [] \<and> os_path_exists (fs s1) p
                              then (case os_remove (fs s1) p of
                                      Inl ex \<Rightarrow> s1
                                    | Inr f' \<Rightarrow> s1\<lparr>fs := f'\<rparr>)
                              else s1)
                in Inr (s2, jsonify 200 [(''ok'', JBool True),
                              (''message'', JStr ''Employee deleted'')]))))"
proof -
  from assms have "bind_int emp_id = Inr (SqlInteger emp_id)"
    by (simp add: bind_int_def)
  then show ?thesis
    by (simp add: delete_employee_def cong: option.case_cong)
qed

lemma delete_employee_overflow:
  assumes "employees (db s) = Some rows" and "emp_id < - (2 ^ 63) \<or> 2 ^ 63 \<le> emp_id"
  shows "delete_employee s emp_id =
           Inl (OverflowError ''Python int too large to convert to SQLite INTEGER'')"
  using assms by (auto simp: delete_employee_def bind_int_def)

lemma delete_employee_wf:
  assumes "employees_wf (db s)" and "delete_employee s emp_id = Inr (s', r)"
  shows "employees_wf (db s')"
proof -
  from assms(1) obtain rows where rows: "employees (db s) = Some rows"
    and wf: "distinct (map e_id rows)" "distinct (map e_roll_number rows)"
            "list_all (\<lambda>r. e_id r \<le> employees_seq (db s) \<and> e_photo_path r \<noteq> Some []) rows"
    by (auto simp: employees_wf_def split: option.splits)
  have "\<not> (emp_id < - (2 ^ 63) \<or> 2 ^ 63 \<le> emp_id)"
  proof
    assume "emp_id < - (2 ^ 63) \<or> 2 ^ 63 \<le> emp_id"
    from delete_employee_overflow [OF rows this] assms(2) show False by simp
  qed
  then have range: "- (2 ^ 63) \<le> emp_id" "emp_id < 2 ^ 63"
    by arith+
  have "db s' = db s \<or>
        db s' = (db s)\<lparr>employees := Some (filter (\<lambda>r. e_id r \<noteq> emp_id) rows)\<rparr>"
    using assms(2) rows
    by (auto simp: delete_employee_bound [OF range] Let_def
          split: option.splits sum.splits if_splits)
  moreover have "employees_wf ((db s)\<lparr>employees := Some (filter (\<lambda>r. e_id r \<noteq> emp_id) rows)\<rparr>)"
    using wf by (simp add: employees_wf_def distinct_map_filter list_all_iff)
  ultimately show ?thesis using assms(1) by auto
qed

lemma init_db_wf: "employees d = None \<or> employees_wf d \<Longrightarrow> employees_wf (fst (init_db d))"
  by (auto simp: employees_wf_def init_db_employees init_db_employees_seq split: option.splits)

text \<open>
  Every reachable state satisfies the schema constraints of the employees table.
\<close>

lemma reachable_wf: "reachable s \<Longrightarrow> employees_wf (db s)"
proof (induction rule: reachable.induct)
  case (start f)
  show ?case by (simp add: init_db_wf empty_db_def)
next
  case (restart s)
  then show ?case by (simp add: init_db_wf)
next
  case (create s e req)
  then show ?case by (simp add: create_employee_state create_employee_try_wf)
next
  case (delete s emp_id s' r)
  then show ?case by (blast intro: delete_employee_wf)
next
  case (disk s f)
  then show ?case by simp
qed

lemma reachable_table:
  assumes "reachable s"
  shows "\<exists>rows. employees (db s) = Some rows \<and> distinct (map e_id rows) \<and>
           distinct (map e_roll_number rows) \<and>
           (\<forall>r \<in> set rows. e_id r \<le> employees_seq (db s) \<and> e_photo_path r \<noteq> Some [])"
  using reachable_wf [OF assms]
  by (auto simp: employees_wf_def list_all_iff split: option.splits)

lemma reachable_duplicate_state: "reachable duplicate_state"
proof -
  have "reachable \<lparr>db = fst (init_db empty_db), fs = example_fs\<rparr>"
    by (rule reachable.start)
  then have "reachable \<lparr>db = seeded_db, fs = example_fs\<rparr>"
    by (simp add: init_db_empty)
  then have "reachable (fst (create_employee example_env \<lparr>db = seeded_db, fs = example_fs\<rparr> example_request))"
    by (rule reachable.create)
  then show ?thesis by (simp add: example_create)
qed

text \<open>
  C1, amended: in every reachable state the employees table exists and no two rows share
  a roll number. A create request that passes validation (no required field missing, the
  photo step passed) and whose trimmed roll number is that of an existing row is answered
  with 409 and the message for a duplicate roll number, and leaves the database as it was.
  When the roll number is new the request succeeds with 201, and a valid request with the
  same roll number on the state that this leaves is answered with 409 and leaves the
  database as it was.
\<close>

theorem roll_number_unique:
  "(reachable s \<longrightarrow>
      (\<exists>rows. employees (db s) = Some rows \<and> distinct (map e_roll_number rows))) \<and>
   (\<forall>rows. employees (db s) = Some rows \<and> missing_fields req = [] \<and> photo_stored e (fs s) req \<and>
      field req ''roll_number'' \<in> set (map e_roll_number rows) \<longrightarrow>
        snd (create_employee e s req) =
          jsonify 409 [(''ok'', JBool False), (''message'', JStr ''Roll number already exists.'')] \<and>
        db (fst (create_employee e s req)) = db s) \<and>
   (\<forall>rows. employees (db s) = Some rows \<and> missing_fields req = [] \<and> photo_stored e (fs s) req \<and>
      field req ''roll_number'' \<notin> set (map e_roll_number rows) \<longrightarrow>
        status (snd (create_employee e s req)) = 201 \<and>
        (\<forall>e' req'. missing_fields req' = [] \<and>
            photo_stored e' (fs (fst (create_employee e s req))) req' \<and>
            field req' ''roll_number'' = field req ''roll_number'' \<longrightarrow>
              status (snd (create_employee e' (fst (create_employee e s req)) req')) = 409 \<and>
              db (fst (create_employee e' (fst (create_employee e s req)) req')) =
                db (fst (create_employee e s req))))"
proof (intro conjI allI impI)
  assume "reachable s"
  then have "employees_wf (db s)" by (rule reachable_wf)
  then show "\<exists>rows. employees (db s) = Some rows \<and> distinct (map e_roll_number rows)"
    by (auto simp: employees_wf_def split: option.splits)
next
  fix rows
  assume a: "employees (db s) = Some rows \<and> missing_fields req = [] \<and> photo_stored e (fs s) req \<and>
      field req ''roll_number'' \<in> set (map e_roll_number rows)"
  then show "snd (create_employee e s req) =
          jsonify 409 [(''ok'', JBool False), (''message'', JStr ''Roll number already exists.'')]"
    using create_employee_duplicate(1) by blast
  from a show "db (fst (create_employee e s req)) = db s"
    using create_employee_duplicate(2) by blast
next
  fix rows
  assume a: "employees (db s) = Some rows \<and> missing_fields req = [] \<and> photo_stored e (fs s) req \<and>
      field req ''roll_number'' \<notin> set (map e_roll_number rows)"
  then show "status (snd (create_employee e s req)) = 201"
    using create_employee_new(1) by blast
next
  fix rows e' req'
  assume a: "employees (db s) = Some rows \<and> missing_fields req = [] \<and> photo_stored e (fs s) req \<and>
      field req ''roll_number'' \<notin> set (map e_roll_number rows)"
    and b: "missing_fields req' = [] \<and>
            photo_stored e' (fs (fst (create_employee e s req))) req' \<and>
            field req' ''roll_number'' = field req ''roll_number''"
  from a obtain row where
    row: "employees (db (fst (create_employee e s req))) = Some (rows @ [row])"
         "e_roll_number row = field req ''roll_number''"
    using create_employee_new(2) by blast
  then have dup: "field req' ''roll_number'' \<in> set (map e_roll_number (rows @ [row]))"
    using b by simp
  show "status (snd (create_employee e' (fst (create_employee e s req)) req')) = 409"
    using create_employee_duplicate(1) [OF row(1) _ _ dup] b by (simp add: jsonify_def)
  show "db (fst (create_employee e' (fst (create_employee e s req)) req')) =
                db (fst (create_employee e s req))"
    using create_employee_duplicate(2) [OF row(1) _ _ dup] b by simp
qed

text \<open>
  A request with the roll number of an existing row is not always answered with 409: when
  a required field is missing as well, validation comes first and the answer is 400.
\<close>

theorem duplicate_roll_not_409_counterexample:
  "employees (db duplicate_state) = Some [example_row 1 ''R1'' None] \<and>
   e_roll_number (example_row 1 ''R1'' None) = ''R1'' \<and>
   map_of (form nameless_request) ''roll_number'' = Some ''R1'' \<and>
   create_employee example_env duplicate_state nameless_request =
     (duplicate_state,
      jsonify 400 [(''ok'', JBool False), (''message'', JStr ''Missing fields: name'')])"
proof -
  have m: "missing_fields nameless_request = [''name'']"
    by (simp add: missing_fields_def required_fields_def field_blank_def nameless_request_def
          py_isspace_def)
  have "create_employee example_env duplicate_state nameless_request =
     (duplicate_state,
      jsonify 400 [(''ok'', JBool False), (''message'', JStr ''Missing fields: name'')])"
    using create_employee_try_missing [of nameless_request example_env duplicate_state]
    by (simp add: m create_employee_def)
  then show ?thesis
    by (simp add: duplicate_state_def example_row_def nameless_request_def)
qed

theorem roll_number_unique_witness:
  "reachable duplicate_state \<and>
   employees (db duplicate_state) = Some [example_row 1 ''R1'' None] \<and>
   distinct (map e_roll_number [example_row 1 ''R1'' None]) \<and>
   missing_fields example_request = [] \<and>
   photo_stored example_env example_fs example_request \<and>
   field example_request ''roll_number'' = ''R1'' \<and>
   employees seeded_db = Some [] \<and>
   status (snd (create_employee example_env \<lparr>db = seeded_db, fs = example_fs\<rparr> example_request)) = 201 \<and>
   fst (create_employee example_env \<lparr>db = seeded_db, fs = example_fs\<rparr> example_request) =
     duplicate_state \<and>
   create_employee example_env duplicate_state example_request =
     (duplicate_state,
      jsonify 409 [(''ok'', JBool False), (''message'', JStr ''Roll number already exists.'')])"
proof -
  let ?s0 = "\<lparr>db = seeded_db, fs = example_fs\<rparr>"
  have e: "employees (db duplicate_state) = Some [example_row 1 ''R1'' None]"
    by (simp add: duplicate_state_def)
  have e0: "employees (db ?s0) = Some []"
    by (simp add: seeded_db_def)
  have f: "fs duplicate_state = example_fs"
    by (simp add: duplicate_state_def)
  have p: "photo_stored example_env f' example_request" for f'
    by (simp add: photo_stored_def example_request_def)
  have r: "field example_request ''roll_number'' = ''R1''"
    by (simp add: field_def example_request_def form_get_or_empty_def py_strip_def py_isspace_def)
  have s1: "fst (create_employee example_env ?s0 example_request) = duplicate_state"
    by (simp add: example_create)
  have first: "status (snd (create_employee example_env ?s0 example_request)) = 201"
    and again: "status (snd (create_employee example_env duplicate_state example_request)) = 409"
      "db (fst (create_employee example_env duplicate_state example_request)) = db duplicate_state"
    using roll_number_unique [of ?s0 example_request example_env] e0 p r missing_fields_example
    by (simp_all add: s1)
  have "fs (fst (create_employee example_env duplicate_state example_request)) = example_fs"
    using create_employee_try_no_photo [OF missing_fields_example, of example_env duplicate_state]
    by (simp add: create_employee_state insert_and_respond_fs f example_request_def)
  with again(2) have "fst (create_employee example_env duplicate_state example_request) = duplicate_state"
    by (intro state.equality) (simp_all add: f)
  moreover have "snd (create_employee example_env duplicate_state example_request) =
      jsonify 409 [(''ok'', JBool False), (''message'', JStr ''Roll number already exists.'')]"
    using roll_number_unique [of duplicate_state example_request example_env] e f p r
      missing_fields_example
    by (simp add: example_row_def)
  ultimately have "create_employee example_env duplicate_state example_request =
     (duplicate_state,
      jsonify 409 [(''ok'', JBool False), (''message'', JStr ''Roll number already exists.'')])"
    by (simp add: prod_eq_iff)
  then show ?thesis
    using reachable_duplicate_state e e0 p r missing_fields_example first s1
    by (simp add: example_row_def)
qed

section \<open>A photo part without a file name\<close>

text \<open>
  C10: when all required fields are present and the photo part has an empty file name,
  the request is handled as the same request without the photo part: the disk is not
  changed, and when the row is inserted (the table exists and the roll number is new,
  which is the only way to get 201) it has no photo path and the 201 response carries
  \<^verbatim>\<open>photo_url = null\<close>.
\<close>

theorem unnamed_photo_ignored:
  assumes "missing_fields req = []"
    and "map_of (files req) ''photo'' = Some photo"
    and "filename photo = []"
  shows "create_employee e s req =
           create_employee e s (req\<lparr>files := filter (\<lambda>p. fst p \<noteq> ''photo'') (files req)\<rparr>) \<and>
         fs (fst (create_employee e s req)) = fs s \<and>
         (\<forall>rows. employees (db s) = Some rows \<and>
                  field req ''roll_number'' \<notin> set (map e_roll_number rows) \<longrightarrow>
            (\<exists>row. e_photo_path row = None \<and>
                   e_roll_number row = field req ''roll_number'' \<and>
                   employees (db (fst (create_employee e s req))) = Some (rows @ [row]) \<and>
                   snd (create_employee e s req) =
                     jsonify 201 [(''ok'', JBool True), (''employee_id'', JInt (e_id row)),
                                  (''photo_url'', JNull)])) \<and>
         (status (snd (create_employee e s req)) = 201 \<longrightarrow>
            (\<exists>rows row. employees (db s) = Some rows \<and> e_photo_path row = None \<and>
                   employees (db (fst (create_employee e s req))) = Some (rows @ [row]) \<and>
                   snd (create_employee e s req) =
                     jsonify 201 [(''ok'', JBool True), (''employee_id'', JInt (e_id row)),
                                  (''photo_url'', JNull)]))"
proof -
  let ?req' = "req\<lparr>files := filter (\<lambda>p. fst p \<noteq> ''photo'') (files req)\<rparr>"
  let ?ins = "insert_and_respond e s (field req ''name'') (field req ''email'')
             (field req ''department'') (field req ''role'') (field req ''roll_number'') None"
  have t: "create_employee_try e s req = ?ins"
    using create_employee_try_no_photo [OF assms(1), of e s] assms(2,3) by simp
  have "field_blank ?req' = field_blank req"
    by (rule ext) (simp add: field_blank_def)
  then have m': "missing_fields ?req' = []"
    using assms(1) by (simp add: missing_fields_def)
  have "map_of (files ?req') ''photo'' = None"
    by (auto simp: map_of_eq_None_iff)
  then have t': "create_employee_try e s ?req' = ?ins"
    using create_employee_try_no_photo [OF m', of e s] by (simp add: field_def)
  have c1: "create_employee e s req = create_employee e s ?req'"
    by (simp only: create_employee_def t t')
  have c2: "fs (fst (create_employee e s req)) = fs s"
    by (simp add: create_employee_state t insert_and_respond_fs)
  have c3: "\<exists>row. e_photo_path row = None \<and>
                   e_roll_number row = field req ''roll_number'' \<and>
                   employees (db (fst (create_employee e s req))) = Some (rows @ [row]) \<and>
                   snd (create_employee e s req) =
                     jsonify 201 [(''ok'', JBool True), (''employee_id'', JInt (e_id row)),
                                  (''photo_url'', JNull)]"
    if "employees (db s) = Some rows" "field req ''roll_number'' \<notin> set (map e_roll_number rows)"
    for rows
    using t [unfolded insert_and_respond_new [OF that]]
    by (simp add: create_employee_def)
  have c4: "\<exists>rows. employees (db s) = Some rows \<and>
                  field req ''roll_number'' \<notin> set (map e_roll_number rows)"
    if "status (snd (create_employee e s req)) = 201"
    using that
    by (auto simp: create_employee_def t insert_and_respond_def insert_employee_def jsonify_def
          Let_def split: option.splits if_splits)
  show ?thesis
    using c1 c2 c3 c4 by blast
qed

lemma unnamed_photo_missing: "missing_fields unnamed_photo_request = []"
  by (simp add: missing_fields_def required_fields_def field_blank_def unnamed_photo_request_def
        example_request_def py_isspace_def)

theorem unnamed_photo_ignored_witness:
  "missing_fields unnamed_photo_request = [] \<and>
   map_of (files unnamed_photo_request) ''photo'' = Some \<lparr>filename = [], content = []\<rparr> \<and>
   filename \<lparr>filename = [], content = []\<rparr> = [] \<and>
   employees seeded_db = Some [] \<and>
   create_employee example_env \<lparr>db = seeded_db, fs = example_fs\<rparr> unnamed_photo_request =
     (duplicate_state,
      jsonify 201 [(''ok'', JBool True), (''employee_id'', JInt 1), (''photo_url'', JNull)]) \<and>
   fs duplicate_state = example_fs \<and>
   employees (db duplicate_state) = Some [example_row 1 ''R1'' None] \<and>
   e_photo_path (example_row 1 ''R1'' None) = None"
proof -
  have b: "map_of (files unnamed_photo_request) ''photo'' = Some \<lparr>filename = [], content = []\<rparr>"
    by (simp add: unnamed_photo_request_def)
  have c: "filename \<lparr>filename = [], content = []\<rparr> = []"
    by simp
  have "unnamed_photo_request\<lparr>files := filter (\<lambda>p. fst p \<noteq> ''photo'') (files unnamed_photo_request)\<rparr>
          = example_request"
    by (simp add: unnamed_photo_request_def example_request_def)
  with unnamed_photo_ignored [OF unnamed_photo_missing b c, of example_env
         "\<lparr>db = seeded_db, fs = example_fs\<rparr>"]
  have "create_employee example_env \<lparr>db = seeded_db, fs = example_fs\<rparr> unnamed_photo_request =
     (duplicate_state,
      jsonify 201 [(''ok'', JBool True), (''employee_id'', JInt 1), (''photo_url'', JNull)])"
    by (simp add: example_create)
  then show ?thesis
    using unnamed_photo_missing b
    by (simp add: duplicate_state_def seeded_db_def example_row_def)
qed

section \<open>Deleting an employee\<close>

lemma is_dir_remove:
  assumes "\<not> is_dir f loc"
  shows "is_dir (f\<lparr>nodes := (nodes f)(loc := None)\<rparr>) x = is_dir f x"
  using assms by (auto simp: is_dir_def)

lemma walk_remove:
  assumes "\<not> is_dir f loc"
  shows "walk (f\<lparr>nodes := (nodes f)(loc := None)\<rparr>) cur cs = walk f cur cs"
  by (induction cs arbitrary: cur) (simp_all add: is_dir_remove [OF assms])

lemma os_remove_gone:
  assumes "os_remove f p = Inr f'"
  shows "\<not> os_path_exists f' p"
proof -
  from assms obtain loc where loc: "os_resolve f p = Some loc" "\<not> is_dir f loc"
    and f': "f' = f\<lparr>nodes := (nodes f)(loc := None)\<rparr>"
    by (auto simp: os_remove_def split: option.splits if_splits)
  have "os_resolve f' p = Some loc"
    using loc by (simp add: os_resolve_def f' walk_remove split: if_splits)
  moreover have "loc \<noteq> []" using loc(2) by (simp add: is_dir_def)
  ultimately show ?thesis by (simp add: os_path_exists_def f')
qed

text \<open>
  Deleting with an id that fits into 64 bits, on a table with unique ids: an id that no
  row has is answered with 404 and changes nothing. The id of a row is answered with 200
  and \<^verbatim>\<open>ok: true\<close>; exactly that row is removed from the table; when the row records a
  photo that exists, the file is removed if the operating system allows it, and otherwise
  the disk stays as it was, with the same response; deleting the same id again is
  answered with 404.
\<close>

lemma delete_employee_in_range:
  assumes "employees (db s) = Some rows" and "distinct (map e_id rows)"
    and "- (2 ^ 63) \<le> emp_id" and "emp_id < 2 ^ 63"
  shows "((\<forall>row \<in> set rows. e_id row \<noteq> emp_id) \<longrightarrow>
            delete_employee s emp_id =
              Inr (s, jsonify 404 [(''ok'', JBool False), (''message'', JStr ''Employee not found'')])) \<and>
         (\<forall>row \<in> set rows. e_id row = emp_id \<longrightarrow>
            (\<exists>s'. delete_employee s emp_id =
                     Inr (s', jsonify 200 [(''ok'', JBool True), (''message'', JStr ''Employee deleted'')]) \<and>
                   db s' = (db s)\<lparr>employees := Some (remove1 row rows)\<rparr> \<and>
                   (case e_photo_path row of
                      None \<Rightarrow> fs s' = fs s
                    | Some p \<Rightarrow>
                        if p \<noteq> [] \<and> os_path_exists (fs s) p
                        then (case os_remove (fs s) p of
                                Inl ex \<Rightarrow> fs s' = fs s
                              | Inr f' \<Rightarrow> fs s' = f' \<and> \<not> os_path_exists (fs s') p)
                        else fs s' = fs s) \<and>
                   delete_employee s' emp_id =
                     Inr (s', jsonify 404 [(''ok'', JBool False), (''message'', JStr ''Employee not found'')])))"
proof (intro conjI impI ballI)
  assume "\<forall>row \<in> set rows. e_id row \<noteq> emp_id"
  then have "find (\<lambda>r. e_id r = emp_id) rows = None"
    by (simp add: find_None_iff)
  with assms(1) show "delete_employee s emp_id =
              Inr (s, jsonify 404 [(''ok'', JBool False), (''message'', JStr ''Employee not found'')])"
    by (simp add: delete_employee_bound [OF assms(3,4)])
next
  fix row
  assume row: "row \<in> set rows" and id: "e_id row = emp_id"
  have uniq: "r = row" if "r \<in> set rows" "e_id r = emp_id" for r
    using that row id assms(2) by (auto simp: distinct_map inj_on_def)
  have found: "find (\<lambda>r. e_id r = emp_id) rows = Some row"
  proof (cases "find (\<lambda>r. e_id r = emp_id) rows")
    case None
    with row id show ?thesis by (auto simp: find_None_iff)
  next
    case (Some r)
    then have "r \<in> set rows" "e_id r = emp_id"
      by (auto simp: find_Some_iff)
    with uniq Some show ?thesis by simp
  qed
  have rest: "filter (\<lambda>r. e_id r \<noteq> emp_id) rows = remove1 row rows"
    using filter_id_remove1 [OF assms(2) row] id by simp
  have gone: "find (\<lambda>r. e_id r = emp_id) (remove1 row rows) = None"
    unfolding rest [symmetric] by (simp add: find_None_iff)
  let ?s1 = "s\<lparr>db := (db s)\<lparr>employees := Some (remove1 row rows)\<rparr>\<rparr>"
  let ?s2 = "case e_photo_path row of
               None \<Rightarrow> ?s1
             | Some p \<Rightarrow>
                 if p \<noteq> [] \<and> os_path_exists (fs ?s1) p
                 then (case os_remove (fs ?s1) p of Inl ex \<Rightarrow> ?s1 | Inr f' \<Rightarrow> ?s1\<lparr>fs := f'\<rparr>)
                 else ?s1"
  have d: "delete_employee s emp_id =
             Inr (?s2, jsonify 200 [(''ok'', JBool True), (''message'', JStr ''Employee deleted'')])"
    using assms(1) found rest by (simp add: delete_employee_bound [OF assms(3,4)] Let_def)
  have db2: "db ?s2 = (db s)\<lparr>employees := Some (remove1 row rows)\<rparr>"
    by (simp split: option.splits sum.splits)
  have fs2: "case e_photo_path row of
                      None \<Rightarrow> fs ?s2 = fs s
                    | Some p \<Rightarrow>
                        if p \<noteq> [] \<and> os_path_exists (fs s) p
                        then (case os_remove (fs s) p of
                                Inl ex \<Rightarrow> fs ?s2 = fs s
                              | Inr f' \<Rightarrow> fs ?s2 = f' \<and> \<not> os_path_exists (fs ?s2) p)
                        else fs ?s2 = fs s"
    by (auto simp: os_remove_gone split: option.splits sum.splits)
  have again: "delete_employee ?s2 emp_id =
                 Inr (?s2, jsonify 404 [(''ok'', JBool False), (''message'', JStr ''Employee not found'')])"
    using gone by (simp add: delete_employee_bound [OF assms(3,4)] db2)
  show "\<exists>s'. delete_employee s emp_id =
                     Inr (s', jsonify 200 [(''ok'', JBool True), (''message'', JStr ''Employee deleted'')]) \<and>
                   db s' = (db s)\<lparr>employees := Some (remove1 row rows)\<rparr> \<and>
                   (case e_photo_path row of
                      None \<Rightarrow> fs s' = fs s
                    | Some p \<Rightarrow>
                        if p \<noteq> [] \<and> os_path_exists (fs s) p
                        then (case os_remove (fs s) p of
                                Inl ex \<Rightarrow> fs s' = fs s
                              | Inr f' \<Rightarrow> fs s' = f' \<and> \<not> os_path_exists (fs s') p)
                        else fs s' = fs s) \<and>
                   delete_employee s' emp_id =
                     Inr (s', jsonify 404 [(''ok'', JBool False), (''message'', JStr ''Employee not found'')])"
    using d db2 fs2 again by blast
qed

lemma delete_employee_in_range_example:
  "employees (db photo_state) =
     Some [example_row 1 ''R1'' (Some ''/srv/app/uploads/R1_1730000000.png'')] \<and>
   distinct (map e_id [example_row 1 ''R1'' (Some ''/srv/app/uploads/R1_1730000000.png'')]) \<and>
   delete_employee photo_state 7 =
     Inr (photo_state,
          jsonify 404 [(''ok'', JBool False), (''message'', JStr ''Employee not found'')]) \<and>
   os_path_exists (fs photo_state) ''/srv/app/uploads/R1_1730000000.png'' \<and>
   (\<exists>s'. delete_employee photo_state 1 =
            Inr (s', jsonify 200 [(''ok'', JBool True), (''message'', JStr ''Employee deleted'')]) \<and>
          employees (db s') = Some [] \<and>
          \<not> os_path_exists (fs s') ''/srv/app/uploads/R1_1730000000.png'' \<and>
          delete_employee s' 1 =
            Inr (s', jsonify 404 [(''ok'', JBool False), (''message'', JStr ''Employee not found'')]))"
proof -
  let ?row = "example_row 1 ''R1'' (Some ''/srv/app/uploads/R1_1730000000.png'')"
  have e: "employees (db photo_state) = Some [?row]"
    by (simp add: photo_state_def)
  have d: "distinct (map e_id [?row])"
    by simp
  have x: "os_path_exists (fs photo_state) ''/srv/app/uploads/R1_1730000000.png''"
    by (simp add: photo_state_def example_fs_def os_path_exists_def os_resolve_def split_on_def
          is_dir_def)
  have r: "\<exists>f'. os_remove (fs photo_state) ''/srv/app/uploads/R1_1730000000.png'' = Inr f'"
    by (simp add: photo_state_def example_fs_def os_remove_def os_resolve_def split_on_def
          is_dir_def)
  have t: "(\<forall>row \<in> set [?row]. e_id row \<noteq> i) \<longrightarrow>
            delete_employee photo_state i =
              Inr (photo_state, jsonify 404 [(''ok'', JBool False), (''message'', JStr ''Employee not found'')])"
    if "- (2 ^ 63) \<le> i" "i < 2 ^ 63" for i
    using delete_employee_in_range [OF e d that] by blast
  have t': "\<forall>row \<in> set [?row]. e_id row = 1 \<longrightarrow>
            (\<exists>s'. delete_employee photo_state 1 =
                     Inr (s', jsonify 200 [(''ok'', JBool True), (''message'', JStr ''Employee deleted'')]) \<and>
                   db s' = (db photo_state)\<lparr>employees := Some (remove1 row [?row])\<rparr> \<and>
                   (case e_photo_path row of
                      None \<Rightarrow> fs s' = fs photo_state
                    | Some p \<Rightarrow>
                        if p \<noteq> [] \<and> os_path_exists (fs photo_state) p
                        then (case os_remove (fs photo_state) p of
                                Inl ex \<Rightarrow> fs s' = fs photo_state
                              | Inr f' \<Rightarrow> fs s' = f' \<and> \<not> os_path_exists (fs s') p)
                        else fs s' = fs photo_state) \<and>
                   delete_employee s' 1 =
                     Inr (s', jsonify 404 [(''ok'', JBool False), (''message'', JStr ''Employee not found'')]))"
    using delete_employee_in_range [OF e d, of 1] by simp
  have "delete_employee photo_state 7 =
     Inr (photo_state,
          jsonify 404 [(''ok'', JBool False), (''message'', JStr ''Employee not found'')])"
    using t [of 7] by (simp add: example_row_def)
  moreover have "\<exists>s'. delete_employee photo_state 1 =
            Inr (s', jsonify 200 [(''ok'', JBool True), (''message'', JStr ''Employee deleted'')]) \<and>
          employees (db s') = Some [] \<and>
          \<not> os_path_exists (fs s') ''/srv/app/uploads/R1_1730000000.png'' \<and>
          delete_employee s' 1 =
            Inr (s', jsonify 404 [(''ok'', JBool False), (''message'', JStr ''Employee not found'')])"
    using t' x r by (auto simp: example_row_def)
  ultimately show ?thesis using e d x by blast
qed

text \<open>
  C5 at an id that does not fit into a signed 64-bit integer: no row has the id 2^63, and
  the request is not answered with 404; binding the id raises \<^verbatim>\<open>OverflowError\<close>, which
  nothing in the handler catches. The largest id that fits is answered with 404.
\<close>

theorem delete_employee_huge_id_raises:
  "employees (db duplicate_state) = Some [example_row 1 ''R1'' None] \<and>
   e_id (example_row 1 ''R1'' None) = 1 \<and>
   delete_employee duplicate_state (2 ^ 63) =
     Inl (OverflowError ''Python int too large to convert to SQLite INTEGER'') \<and>
   delete_employee duplicate_state (2 ^ 63 - 1) =
     Inr (duplicate_state,
          jsonify 404 [(''ok'', JBool False), (''message'', JStr ''Employee not found'')])"
  by (simp add: delete_employee_def bind_int_def duplicate_state_def example_row_def)

section \<open>Listing and login\<close>

lemma order_by_id_desc_mset: "mset (order_by_id_desc rows) = mset rows"
  by (simp add: order_by_id_desc_def)

lemma order_by_id_desc_sorted: "sorted (rev (map e_id (order_by_id_desc rows)))"
  by (simp add: order_by_id_desc_def rev_map)

text \<open>
  C6: when the employees table exists (it may be empty), \<^verbatim>\<open>list_employees\<close> answers 200
  with \<^verbatim>\<open>ok: true\<close> and the views of exactly the rows of the table, by descending id.
  A view has the eight members id, name, email, department, role, roll_number, photo_url,
  created_at and no member for the photo path; \<^verbatim>\<open>photo_url\<close> is null when no photo path
  is recorded and \<^verbatim>\<open>/uploads/\<close> followed by the base name of the path otherwise. The
  base name has no slash, and the view does not depend on the directory part of the path.
\<close>

theorem list_employees_correct:
  assumes "employees d = Some rows"
  shows "\<exists>listed.
           list_employees d =
             Inr (jsonify 200 [(''ok'', JBool True),
                    (''employees'', JArr (map row_to_employee_dict listed))]) \<and>
           mset listed = mset rows \<and>
           sorted (rev (map e_id listed)) \<and>
           (\<forall>row \<in> set listed.
              (\<exists>url. row_to_employee_dict row =
                        JObj [(''id'', JInt (e_id row)), (''name'', JStr (e_name row)),
                              (''email'', JStr (e_email row)),
                              (''department'', JStr (e_department row)),
                              (''role'', JStr (e_role row)),
                              (''roll_number'', JStr (e_roll_number row)),
                              (''photo_url'', url),
                              (''created_at'', JStr (e_created_at row))] \<and>
                 (e_photo_path row = None \<longrightarrow> url = JNull) \<and>
                 (\<forall>p. e_photo_path row = Some p \<and> p \<noteq> [] \<longrightarrow>
                        url = JStr (''/uploads/'' @ basename p) \<and> CHR ''/'' \<notin> set (basename p))) \<and>
              (\<forall>p q. e_photo_path row = Some p \<and> p \<noteq> [] \<and> q \<noteq> [] \<and> basename q = basename p \<longrightarrow>
                 row_to_employee_dict (row\<lparr>e_photo_path := Some q\<rparr>) = row_to_employee_dict row))"
proof -
  have "list_employees d =
             Inr (jsonify 200 [(''ok'', JBool True),
                    (''employees'', JArr (map row_to_employee_dict (order_by_id_desc rows)))])"
    using assms by (simp add: list_employees_def)
  moreover have "\<exists>url. row_to_employee_dict row =
                        JObj [(''id'', JInt (e_id row)), (''name'', JStr (e_name row)),
                              (''email'', JStr (e_email row)),
                              (''department'', JStr (e_department row)),
                              (''role'', JStr (e_role row)),
                              (''roll_number'', JStr (e_roll_number row)),
                              (''photo_url'', url),
                              (''created_at'', JStr (e_created_at row))] \<and>
                 (e_photo_path row = None \<longrightarrow> url = JNull) \<and>
                 (\<forall>p. e_photo_path row = Some p \<and> p \<noteq> [] \<longrightarrow>
                        url = JStr (''/uploads/'' @ basename p) \<and> CHR ''/'' \<notin> set (basename p))" for row
    by (cases "e_photo_path row") (simp_all add: row_to_employee_dict_def basename_no_slash)
  moreover have "\<forall>p q. e_photo_path row = Some p \<and> p \<noteq> [] \<and> q \<noteq> [] \<and> basename q = basename p \<longrightarrow>
                 row_to_employee_dict (row\<lparr>e_photo_path := Some q\<rparr>) = row_to_employee_dict row" for row
    by (simp add: row_to_employee_dict_def)
  ultimately show ?thesis
    using order_by_id_desc_mset [of rows] order_by_id_desc_sorted [of rows] by blast
qed

theorem list_employees_correct_witness:
  "employees three_rows_db =
     Some [example_row 1 ''R1'' (Some ''/srv/app/uploads/R1_1730000000.png''),
           example_row 2 ''R2'' None, example_row 3 ''R3'' None] \<and>
   list_employees three_rows_db =
     Inr (jsonify 200 [(''ok'', JBool True),
            (''employees'', JArr [example_view 3 ''R3'' JNull, example_view 2 ''R2'' JNull,
                                 example_view 1 ''R1'' (JStr ''/uploads/R1_1730000000.png'')])]) \<and>
   employees seeded_db = Some [] \<and>
   list_employees seeded_db = Inr (jsonify 200 [(''ok'', JBool True), (''employees'', JArr [])])"
proof -
  let ?rows = "[example_row 1 ''R1'' (Some ''/srv/app/uploads/R1_1730000000.png''),
                example_row 2 ''R2'' None, example_row 3 ''R3'' None]"
  have e3: "employees three_rows_db = Some ?rows"
    by (simp add: three_rows_db_def)
  have e0: "employees seeded_db = Some []"
    by (simp add: seeded_db_def)
  from list_employees_correct [OF e0] have l0:
    "list_employees seeded_db = Inr (jsonify 200 [(''ok'', JBool True), (''employees'', JArr [])])"
    by auto
  from list_employees_correct [OF e3] obtain listed where
    l: "list_employees three_rows_db =
          Inr (jsonify 200 [(''ok'', JBool True), (''employees'', JArr (map row_to_employee_dict listed))])"
    by blast
  have "list_employees three_rows_db =
     Inr (jsonify 200 [(''ok'', JBool True),
            (''employees'', JArr [example_view 3 ''R3'' JNull, example_view 2 ''R2'' JNull,
                                 example_view 1 ''R1'' (JStr ''/uploads/R1_1730000000.png'')])])"
    by (simp add: list_employees_def e3 order_by_id_desc_def example_row_def example_view_def
          row_to_employee_dict_def basename_def)
  with e3 e0 l0 l show ?thesis by simp
qed

text \<open>
  C8: with username and password read from the form (the empty string when absent),
  \<^verbatim>\<open>login\<close> answers 200 with status success when a row of the users table has both
  values and 200 with status fail when none has; it answers 500 with status error and a
  message exactly when the query fails, which is when the users table does not exist.
\<close>

theorem login_correct:
  "(\<forall>rows. users d = Some rows \<longrightarrow>
      login d frm =
        jsonify 200 [(''status'', JStr
          (if \<exists>r \<in> set rows. u_username r = (case map_of frm ''username'' of None \<Rightarrow> [] | Some v \<Rightarrow> v) \<and>
                               u_password r = (case map_of frm ''password'' of None \<Rightarrow> [] | Some v \<Rightarrow> v)
           then ''success'' else ''fail''))]) \<and>
   (users d = None \<longrightarrow>
      login d frm =
        \<lparr>status = 500,
         body = Json (JObj [(''status'', JStr ''error''), (''message'', JStr ''no such table: users'')])\<rparr>) \<and>
   (status (login d frm) = 500 \<longleftrightarrow> users d = None) \<and>
   (status (login d frm) = 200 \<longleftrightarrow> users d \<noteq> None)"
proof -
  have g: "form_get_or_empty frm k = (case map_of frm k of None \<Rightarrow> [] | Some v \<Rightarrow> v)" for k
    by (simp add: form_get_or_empty_def split: option.splits)
  show ?thesis
  proof (cases "users d")
    case None
    then show ?thesis by (simp add: login_def Let_def jsonify_def)
  next
    case (Some rows)
    let ?P = "\<lambda>r. u_username r = (case map_of frm ''username'' of None \<Rightarrow> [] | Some v \<Rightarrow> v) \<and>
                  u_password r = (case map_of frm ''password'' of None \<Rightarrow> [] | Some v \<Rightarrow> v)"
    have "login d frm =
            jsonify 200 [(''status'', JStr (if find ?P rows \<noteq> None then ''success'' else ''fail''))]"
      using Some by (simp only: login_def Let_def g option.case)
    then have "login d frm =
            jsonify 200 [(''status'', JStr (if \<exists>r \<in> set rows. ?P r then ''success'' else ''fail''))]"
      by (simp only: find_Some_ex)
    then show ?thesis
      using Some by (simp add: jsonify_def)
  qed
qed

theorem login_correct_witness:
  "users seeded_db = Some [\<lparr>u_id = 1, u_username = ''hidan'', u_password = ''killer''\<rparr>] \<and>
   login seeded_db [(''username'', ''hidan''), (''password'', ''killer'')] =
     jsonify 200 [(''status'', JStr ''success'')] \<and>
   login seeded_db [(''username'', ''hidan'')] = jsonify 200 [(''status'', JStr ''fail'')] \<and>
   users empty_db = None \<and>
   status (login empty_db [(''username'', ''hidan''), (''password'', ''killer'')]) = 500"
proof -
  have u: "users seeded_db = Some [\<lparr>u_id = 1, u_username = ''hidan'', u_password = ''killer''\<rparr>]"
    by (simp add: seeded_db_def)
  have n: "users empty_db = None"
    by (simp add: empty_db_def)
  show ?thesis
    using login_correct [of seeded_db "[(''username'', ''hidan''), (''password'', ''killer'')]"]
      login_correct [of seeded_db "[(''username'', ''hidan'')]"]
      login_correct [of empty_db "[(''username'', ''hidan''), (''password'', ''killer'')]"]
      u n
    by simp
qed

section \<open>The admin key\<close>

text \<open>
  Where \<^verbatim>\<open>check_key\<close> answers as intended: a body that is missing, not JSON or
  malformed is the empty key, and a JSON object with a string key is compared with the
  admin rows.
\<close>

lemma check_key_no_body:
  assumes "b = Missing \<or> b = NonJson \<or> b = Malformed" and "admin d = Some rows"
  shows "check_key d b = Inr (jsonify 200 [(''ok'', JBool (\<exists>r \<in> set rows. a_adminpass r = []))])"
  using assms by (auto simp: check_key_def dict_get_def find_ex_Some)

lemma check_key_string:
  assumes "dict_get kvs ''key'' = Some (JStr k)" and "admin d = Some rows"
  shows "check_key d (Decoded (JObj kvs)) =
           Inr (jsonify 200 [(''ok'', JBool (\<exists>r \<in> set rows. a_adminpass r = k))])"
proof -
  from assms(1) have "kvs \<noteq> []" by (auto simp: dict_get_def)
  with assms show ?thesis
    by (simp add: check_key_def find_ex_Some)
qed

lemma check_key_seeded:
  "check_key seeded_db (Decoded (JObj [(''key'', JStr ''ceo@2025'')])) =
     Inr (jsonify 200 [(''ok'', JBool True)])"
  "check_key seeded_db (Decoded (JObj [(''key'', JStr ''guess'')])) =
     Inr (jsonify 200 [(''ok'', JBool False)])"
  "check_key seeded_db Malformed = Inr (jsonify 200 [(''ok'', JBool False)])"
  by (simp_all add: check_key_def dict_get_def seeded_db_def)

text \<open>
  C7 at a body that is JSON but not an object: the array \<^verbatim>\<open>[1]\<close> is truthy, so it is
  not replaced by the empty dict, and \<^verbatim>\<open>data.get\<close> raises; no response with status 200
  is produced.
\<close>

theorem check_key_array_body_raises:
  "check_key seeded_db (Decoded (JArr [JInt 1])) = Inl (AttributeError ''object has no attribute get'')"
  by (simp add: check_key_def)

lemma check_key_unbindable_key_raises:
  "check_key seeded_db (Decoded (JObj [(''key'', JArr [])])) =
     Inl (ProgrammingError ''Error binding parameter 1: type list is not supported'')"
  by (simp add: check_key_def dict_get_def seeded_db_def)

section \<open>Serving files\<close>

lemma walk_append:
  "walk f cur (xs @ ys) = (case walk f cur xs of None \<Rightarrow> None | Some loc \<Rightarrow> walk f loc ys)"
  by (induction xs arbitrary: cur) simp_all

lemma walk_names:
  assumes "\<forall>s \<in> set segs. s \<noteq> [] \<and> s \<noteq> ''.'' \<and> s \<noteq> ''..''"
    and "walk f cur segs = Some loc"
  shows "loc = cur @ segs"
  using assms
proof (induction segs arbitrary: cur)
  case Nil
  then show ?case by simp
next
  case (Cons s segs)
  then have "walk f (cur @ [s]) segs = Some loc"
    by (auto split: if_splits)
  with Cons.IH [of "cur @ [s]"] Cons.prems show ?case by simp
qed

lemma walk_no_dotdot:
  assumes "\<forall>s \<in> set segs. s \<noteq> ''..''" and "walk f cur segs = Some loc"
  shows "take (length cur) loc = cur"
  using assms
proof (induction segs arbitrary: cur)
  case Nil
  then show ?case by simp
next
  case (Cons s segs)
  show ?case
  proof (cases "s = [] \<or> s = ''.''")
    case True
    with Cons.prems have "walk f cur segs = Some loc"
      by (auto split: if_splits)
    with Cons.IH [of cur] Cons.prems show ?thesis by simp
  next
    case False
    with Cons.prems have "walk f (cur @ [s]) segs = Some loc"
      by (auto split: if_splits)
    with Cons.IH [of "cur @ [s]"] Cons.prems
    have "take (Suc (length cur)) loc = cur @ [s]" by simp
    then have "take (length cur) (take (Suc (length cur)) loc) = take (length cur) (cur @ [s])"
      by simp
    then show ?thesis by (simp add: min_def)
  qed
qed

lemma norm_step_form:
  assumes "comps = replicate k ''..'' @ rest" and "\<forall>s \<in> set rest. s \<noteq> [] \<and> s \<noteq> ''.'' \<and> s \<noteq> ''..''"
  shows "\<exists>k' rest'. norm_step 0 comps part = replicate k' ''..'' @ rest' \<and>
           (\<forall>s \<in> set rest'. s \<noteq> [] \<and> s \<noteq> ''.'' \<and> s \<noteq> ''..'')"
proof (cases "part = [] \<or> part = ''.''")
  case True
  with assms show ?thesis by (auto simp: norm_step_def)
next
  case False
  note plain = this
  show ?thesis
  proof (cases "part = ''..''")
    case False
    with plain have "norm_step 0 comps part = replicate k ''..'' @ (rest @ [part])"
      by (simp add: norm_step_def assms(1))
    moreover have "\<forall>s \<in> set (rest @ [part]). s \<noteq> [] \<and> s \<noteq> ''.'' \<and> s \<noteq> ''..''"
      using assms(2) plain False by auto
    ultimately show ?thesis by blast
  next
    case True
    show ?thesis
    proof (cases "rest = []")
      case True
      with \<open>part = ''..''\<close> assms(1) have "norm_step 0 comps part = replicate (Suc k) ''..'' @ []"
        by (cases k) (simp_all add: norm_step_def replicate_append_same)
      moreover have "\<forall>s \<in> set ([] :: string list). s \<noteq> [] \<and> s \<noteq> ''.'' \<and> s \<noteq> ''..''"
        by simp
      ultimately show ?thesis by blast
    next
      case False
      then have "comps \<noteq> []" "last comps = last rest" using assms(1) by simp_all
      moreover have "last rest \<noteq> ''..''" using False assms(2) last_in_set by blast
      ultimately have "norm_step 0 comps part = replicate k ''..'' @ butlast rest"
        using \<open>part = ''..''\<close> False assms(1) by (simp add: norm_step_def butlast_append)
      moreover have "\<forall>s \<in> set (butlast rest). s \<noteq> [] \<and> s \<noteq> ''.'' \<and> s \<noteq> ''..''"
        using assms(2) by (meson in_set_butlastD)
      ultimately show ?thesis by blast
    qed
  qed
qed

lemma norm_fold_form:
  assumes "comps = replicate k ''..'' @ rest" and "\<forall>s \<in> set rest. s \<noteq> [] \<and> s \<noteq> ''.'' \<and> s \<noteq> ''..''"
  shows "\<exists>k' rest'. foldl (norm_step 0) comps parts = replicate k' ''..'' @ rest' \<and>
           (\<forall>s \<in> set rest'. s \<noteq> [] \<and> s \<noteq> ''.'' \<and> s \<noteq> ''..'')"
  using assms
proof (induction parts arbitrary: comps k rest)
  case Nil
  then show ?case by auto
next
  case (Cons p ps)
  from norm_step_form [OF Cons.prems, of p] obtain k' rest' where
    "norm_step 0 comps p = replicate k' ''..'' @ rest'"
    "\<forall>s \<in> set rest'. s \<noteq> [] \<and> s \<noteq> ''.'' \<and> s \<noteq> ''..''"
    by blast
  from Cons.IH [OF this] show ?case by simp
qed

lemma norm_step_subset: "set (norm_step i comps part) \<subseteq> insert part (set comps)"
  by (auto simp: norm_step_def dest: in_set_butlastD)

lemma norm_fold_subset: "set (foldl (norm_step i) comps parts) \<subseteq> set comps \<union> set parts"
proof (induction parts arbitrary: comps)
  case Nil
  show ?case by simp
next
  case (Cons p ps)
  have "set (foldl (norm_step i) (norm_step i comps p) ps) \<subseteq> set (norm_step i comps p) \<union> set ps"
    by (rule Cons.IH)
  with norm_step_subset [of i comps p] show ?case by auto
qed

text \<open>
  \<^verbatim>\<open>normpath\<close> of a relative path: some leading \<open>..\<close> followed by plain names.
\<close>

lemma normpath_relative_form:
  assumes "name \<noteq> []" and "hd name \<noteq> CHR ''/''"
  shows "\<exists>k rest. normpath name =
            (if replicate k ''..'' @ rest = [] then ''.'' else py_join ''/'' (replicate k ''..'' @ rest)) \<and>
            (\<forall>s \<in> set rest. s \<noteq> [] \<and> s \<noteq> ''.'' \<and> s \<noteq> ''..'' \<and> CHR ''/'' \<notin> set s)"
proof -
  let ?parts = "split_on CHR ''/'' name"
  let ?comps = "foldl (norm_step 0) [] ?parts"
  have "[] = replicate 0 ''..'' @ ([] :: string list)" by simp
  from norm_fold_form [OF this, of ?parts] obtain k rest where
    form: "?comps = replicate k ''..'' @ rest"
      "\<forall>s \<in> set rest. s \<noteq> [] \<and> s \<noteq> ''.'' \<and> s \<noteq> ''..''"
    by auto
  have "set ?comps \<subseteq> set ?parts"
    using norm_fold_subset [of 0 "[]" ?parts] by simp
  then have "\<forall>s \<in> set rest. CHR ''/'' \<notin> set s"
    using form(1) split_when_pieces [of _ "\<lambda>c. c = CHR ''/''" name]
    by (auto simp: split_on_def)
  moreover have "normpath name = (if ?comps = [] then ''.'' else py_join ''/'' ?comps)"
  proof (cases "?comps = []")
    case True
    with assms show ?thesis by (simp add: normpath_def)
  next
    case False
    have "hd ?comps \<noteq> []"
    proof (cases k)
      case 0
      with form False show ?thesis by (cases rest) auto
    next
      case (Suc n)
      with form show ?thesis by simp
    qed
    with False have "py_join ''/'' ?comps \<noteq> []" by (rule py_join_not_empty)
    with assms False show ?thesis by (simp add: normpath_def Let_def)
  qed
  ultimately have "normpath name =
            (if replicate k ''..'' @ rest = [] then ''.'' else py_join ''/'' (replicate k ''..'' @ rest)) \<and>
            (\<forall>s \<in> set rest. s \<noteq> [] \<and> s \<noteq> ''.'' \<and> s \<noteq> ''..'' \<and> CHR ''/'' \<notin> set s)"
    using form by simp
  then show ?thesis by blast
qed

lemma normpath_absolute:
  assumes "name \<noteq> []" and "hd name = CHR ''/''"
  shows "normpath name \<noteq> [] \<and> hd (normpath name) = CHR ''/''"
  using assms by (simp add: normpath_def Let_def)

lemma safe_join_form:
  assumes "safe_join dir name = Some p" and "name \<noteq> []" and "dir \<noteq> []" and "last dir \<noteq> CHR ''/''"
  shows "\<exists>rest. p = dir @ ''/'' @ (if rest = [] then ''.'' else py_join ''/'' rest) \<and>
           (\<forall>s \<in> set rest. s \<noteq> [] \<and> s \<noteq> ''.'' \<and> s \<noteq> ''..'' \<and> CHR ''/'' \<notin> set s)"
proof -
  let ?n = "normpath name"
  from assms have ok: "\<not> (?n \<noteq> [] \<and> hd ?n = CHR ''/'')" "?n \<noteq> ''..''" "take 3 ?n \<noteq> ''../''"
    and p: "p = dir @ ''/'' @ ?n"
    by (auto simp: safe_join_def Let_def split: if_splits)
  from ok(1) normpath_absolute [OF assms(2)] have rel: "hd name \<noteq> CHR ''/''" by blast
  from normpath_relative_form [OF assms(2) rel] obtain k rest where
    form: "?n = (if replicate k ''..'' @ rest = [] then ''.'' else py_join ''/'' (replicate k ''..'' @ rest))"
      "\<forall>s \<in> set rest. s \<noteq> [] \<and> s \<noteq> ''.'' \<and> s \<noteq> ''..'' \<and> CHR ''/'' \<notin> set s"
    by blast
  have "k = 0"
  proof (rule ccontr)
    assume "k \<noteq> 0"
    then obtain n where "k = Suc n" by (cases k) auto
    then have "replicate k ''..'' @ rest = ''..'' # (replicate n ''..'' @ rest)" by simp
    from py_join_dotdot [OF this] form(1) ok show False
      using \<open>k = Suc n\<close> by auto
  qed
  with form p show ?thesis by auto
qed

lemma resolve_below:
  assumes u: "\<forall>s \<in> set U. s \<noteq> [] \<and> s \<noteq> ''.'' \<and> s \<noteq> ''..'' \<and> CHR ''/'' \<notin> set s" and "U \<noteq> []"
    and x: "\<forall>s \<in> set X. s \<noteq> ''..'' \<and> CHR ''/'' \<notin> set s" and "X \<noteq> []"
    and r: "os_resolve f (str_path U @ ''/'' @ py_join ''/'' X) = Some loc"
  shows "take (length U) loc = U"
proof -
  have p: "str_path U @ ''/'' @ py_join ''/'' X = CHR ''/'' # py_join ''/'' (U @ X)"
    using assms(2,4) by (simp add: str_path_def py_join_append)
  have "split_when (\<lambda>c. c = CHR ''/'') (py_join ''/'' (U @ X)) = U @ X"
    using u x assms(2) by (intro split_when_join) auto
  then have "split_on CHR ''/'' (CHR ''/'' # py_join ''/'' (U @ X)) = [] # U @ X"
    by (simp add: split_on_def)
  with r p have "walk f [] ([] # U @ X) = Some loc"
    by (simp add: os_resolve_def)
  then have w: "walk f [] (U @ X) = Some loc"
    by (simp add: is_dir_def)
  then obtain c where c: "walk f [] U = Some c" "walk f c X = Some loc"
    by (auto simp: walk_append split: option.splits)
  from walk_names [OF _ c(1)] u have "c = U" by auto
  with walk_no_dotdot [OF _ c(2)] x show ?thesis by auto
qed

lemma send_file_location:
  assumes "send_file f p = Inr r" and "body r = FileBody loc data"
  shows "os_resolve f p = Some loc"
  using assms
  by (auto simp: send_file_def split: option.splits if_splits node.splits)

text \<open>
  \<^verbatim>\<open>get_upload\<close> goes through \<^verbatim>\<open>safe_join\<close>: whatever the requested name, a file that
  is sent lies below the upload directory.
\<close>

lemma get_upload_confined:
  assumes "plain_names (app_dir e)"
    and "get_upload e f name = Inr r" and "body r = FileBody loc data"
  shows "take (length (UPLOAD_DIR e)) loc = UPLOAD_DIR e"
proof -
  let ?U = "UPLOAD_DIR e"
  let ?dir = "str_path ?U"
  have u: "\<forall>s \<in> set ?U. s \<noteq> [] \<and> s \<noteq> ''.'' \<and> s \<noteq> ''..'' \<and> CHR ''/'' \<notin> set s"
    using assms(1) by (auto simp: plain_names_def UPLOAD_DIR_def list_all_iff)
  have ne: "?U \<noteq> []" by (simp add: UPLOAD_DIR_def)
  have lastU: "last ?U = ''uploads''" by (simp add: UPLOAD_DIR_def)
  have "py_join ''/'' ?U \<noteq> []"
    using ne u by (intro py_join_not_empty) (auto simp: UPLOAD_DIR_def hd_append)
  then have "last ?dir = last (py_join ''/'' ?U)"
    by (simp add: str_path_def)
  also have "\<dots> = last (last ?U)"
    using ne lastU by (intro last_py_join) simp_all
  finally have dir: "?dir \<noteq> []" "last ?dir \<noteq> CHR ''/''"
    by (simp_all add: lastU str_path_def)
  from assms(2,3) obtain p where sj: "safe_join ?dir name = Some p" and sf: "send_file f p = Inr r"
    by (auto simp: get_upload_def send_from_directory_def split: option.splits if_splits)
  have "\<exists>X. X \<noteq> [] \<and> (\<forall>s \<in> set X. s \<noteq> ''..'' \<and> CHR ''/'' \<notin> set s) \<and>
             p = ?dir @ ''/'' @ py_join ''/'' X"
  proof (cases "name = []")
    case True
    with sj dir have "p = ?dir @ ''/'' @ py_join ''/'' [[]]"
      by (auto simp: safe_join_def Let_def split: if_splits)
    then show ?thesis by (intro exI [of _ "[[]]"]) simp
  next
    case False
    from safe_join_form [OF sj False dir] obtain rest where
      rest: "p = ?dir @ ''/'' @ (if rest = [] then ''.'' else py_join ''/'' rest)"
        "\<forall>s \<in> set rest. s \<noteq> [] \<and> s \<noteq> ''.'' \<and> s \<noteq> ''..'' \<and> CHR ''/'' \<notin> set s"
      by blast
    show ?thesis
    proof (cases "rest = []")
      case True
      with rest have "p = ?dir @ ''/'' @ py_join ''/'' [''.'']" by simp
      then show ?thesis by (intro exI [of _ "[''.'']"]) simp
    next
      case False
      with rest show ?thesis by (intro exI [of _ rest]) auto
    qed
  qed
  then obtain X where X: "X \<noteq> []" "\<forall>s \<in> set X. s \<noteq> ''..'' \<and> CHR ''/'' \<notin> set s"
    "p = ?dir @ ''/'' @ py_join ''/'' X"
    by blast
  from send_file_location [OF sf assms(3)] X(3)
  have "os_resolve f (?dir @ ''/'' @ py_join ''/'' X) = Some loc" by simp
  from resolve_below [OF u ne X(2) X(1) this] show ?thesis .
qed

lemma path_parts_plain:
  assumes "s \<in> set (path_parts p)"
  shows "s \<noteq> [] \<and> s \<noteq> ''.'' \<and> CHR ''/'' \<notin> set s"
  using assms split_when_pieces [of s "\<lambda>c. c = CHR ''/''" p]
  by (auto simp: path_parts_def split_on_def)

text \<open>
  \<^verbatim>\<open>static_files\<close> stays below the application directory as long as the path is
  relative and has no part \<open>..\<close>; nothing in the handler enforces that.
\<close>

lemma static_files_confined_without_dotdot:
  assumes "plain_names (app_dir e)"
    and "path \<noteq> [] \<longrightarrow> hd path \<noteq> CHR ''/''"
    and "''..'' \<notin> set (path_parts path)"
    and "static_files e f path = Inr r" and "body r = FileBody loc data"
  shows "take (length (app_dir e)) loc = app_dir e"
proof -
  let ?segs = "app_dir e @ path_parts path"
  have plain: "\<forall>s \<in> set ?segs. s \<noteq> [] \<and> s \<noteq> ''.'' \<and> s \<noteq> ''..''"
    using assms(1,3) path_parts_plain [of _ path]
    by (auto simp: plain_names_def list_all_iff)
  have slash: "\<forall>s \<in> set ?segs. CHR ''/'' \<notin> set s"
    using assms(1) path_parts_plain [of _ path]
    by (auto simp: plain_names_def list_all_iff)
  have target: "path_div (app_dir e) path = ?segs"
    using assms(2) by (auto simp: path_div_def)
  from assms(4,5) have "send_file f (str_path ?segs) = Inr r"
    by (auto simp: static_files_def target Let_def split: if_splits)
  from send_file_location [OF this assms(5)]
  have r: "os_resolve f (str_path ?segs) = Some loc" .
  show ?thesis
  proof (cases "?segs = []")
    case True
    then show ?thesis by simp
  next
    case False
    then have "split_when (\<lambda>c. c = CHR ''/'') (py_join ''/'' ?segs) = ?segs"
      using slash by (intro split_when_join) auto
    then have "split_on CHR ''/'' (str_path ?segs) = [] # ?segs"
      by (simp add: split_on_def str_path_def)
    with r have "walk f [] ?segs = Some loc"
      by (simp add: os_resolve_def str_path_def is_dir_def)
    from walk_names [OF plain this] show ?thesis by simp
  qed
qed

lemma get_upload_refuses_traversal:
  "get_upload example_env example_fs ''../../secret.txt'' =
     Inr \<lparr>status = 404, body = Text ''Not Found''\<rparr>"
  "get_upload example_env example_fs ''R1_1730000000.png'' =
     Inr \<lparr>status = 200,
          body = FileBody [''srv'', ''app'', ''uploads'', ''R1_1730000000.png''] ''image''\<rparr>"
  by (simp_all add: get_upload_def send_from_directory_def safe_join_def normpath_def
        norm_step_def split_on_def UPLOAD_DIR_def example_env_def str_path_def example_fs_def
        os_path_isfile_def os_resolve_def is_dir_def send_file_def)

text \<open>
  C2 at a path with a traversal segment: \<^verbatim>\<open>static_files\<close> sends a file that lies outside
  the application directory.
\<close>

theorem static_files_serves_outside_app_dir:
  "static_files example_env example_fs ''../secret.txt'' =
     Inr \<lparr>status = 200, body = FileBody [''srv'', ''secret.txt''] ''top secret''\<rparr> \<and>
   app_dir example_env = [''srv'', ''app''] \<and>
   take (length (app_dir example_env)) [''srv'', ''secret.txt''] \<noteq> app_dir example_env"
  by (simp add: static_files_def example_env_def example_fs_def path_div_def path_parts_def
        split_on_def str_path_def os_path_exists_def os_resolve_def is_dir_def send_file_def)

end
